theory Spec2Isabelle
  imports Main "HOL-Library.Word"
begin

section \<open>The structured fuzzing harness of libexpat (xml_lpm_fuzzer.cpp)\<close>

text \<open>
  The harness replays a structured test case against the streaming API of the XML
  parser. The parser itself is not part of the file: every entry point of the library
  is a parameter of the model, and every function of the harness is translated from
  its C++ text.

  Conventions.
  \<^item> A nullable pointer is an \<open>option\<close>: \<open>None\<close> is the null pointer.
  \<^item> A pointer to characters is the region that may be read through it: the list of
    the units that are addressable from the pointer on. Reading past the end of the
    region is the fault that the memory sanitizer reports.
  \<^item> \<open>size_t\<close> is \<open>nat\<close>; the conversion of a \<open>size_t\<close> to the \<open>int\<close> parameter
    \<open>input_len\<close> is written out (\<open>size_to_int\<close>).
  \<^item> \<open>allocation_count\<close> is a C \<open>int\<close> that only ever grows by one; it is an \<open>int\<close>
    here, which is exact for the runs with fewer than \<open>2^31 - 1\<close> successful allocations
    (beyond that the C program has no defined behaviour).
\<close>

subsection \<open>Data of the test case (xml_lpm_fuzzer.pb.h)\<close>

text \<open>
  Modelled from the spec: the protocol-buffer message types come from the generated
  header, which is not among the sources. The enum has the five named values; a
  protocol-buffer enum field can also hold a number that names none of them, which is
  what the \<open>default\<close> branch of \<open>SetEncoding\<close> receives.
\<close>

datatype Encoding = UTF8 | UTF16 | ISO88591 | ASCII | NONE | Unrecognized int

text \<open>
  Modelled from the spec: an action is exactly one of the four variants; the generated
  accessor \<open>action_case()\<close> also has the value for "no variant set", which the
  \<open>default\<close> branch of the replay loop receives.
\<close>

datatype Action =
    Chunk string
  | LastChunk string
  | Reset
  | ExternalEntity string
  | ACTION_NOT_SET

record Testcase =
  tc_encoding :: Encoding
  tc_fail_allocations :: "int list"
  tc_actions :: "Action list"

subsection \<open>Static variables of the harness\<close>

text \<open>
  \<open>g_encoding\<close>, \<open>external_entity\<close>, \<open>external_entity_size\<close>, \<open>allocation_count\<close> and
  \<open>fail_allocations\<close> are the file's static variables. \<open>world\<close> is everything the file
  does not own: the C heap and the state of the library's parsers.
\<close>

record 'w globals =
  g_encoding :: "string option"
  external_entity :: "string option"
  external_entity_size :: nat
  allocation_count :: int
  fail_allocations :: "int list"
  world :: 'w

subsection \<open>SetEncoding\<close>

definition SetEncoding :: "Encoding \<Rightarrow> 'w globals \<Rightarrow> 'w globals" where
  "SetEncoding e g =
     (case e of
        UTF8 \<Rightarrow> g\<lparr>g_encoding := Some ''UTF-8''\<rparr>
      | UTF16 \<Rightarrow> g\<lparr>g_encoding := Some ''UTF-16''\<rparr>
      | ISO88591 \<Rightarrow> g\<lparr>g_encoding := Some ''ISO-8859-1''\<rparr>
      | ASCII \<Rightarrow> g\<lparr>g_encoding := Some ''US-ASCII''\<rparr>
      | NONE \<Rightarrow> g\<lparr>g_encoding := None\<rparr>
      | Unrecognized _ \<Rightarrow> g\<lparr>g_encoding := Some ''UNKNOWN''\<rparr>)"

subsection \<open>The allocation hooks\<close>

text \<open>
  The C allocator behind the hooks. A pointer is a \<open>nat option\<close>; the allocator works
  on the \<open>world\<close>.
\<close>

type_synonym ptr = "nat option"

record 'w libc =
  malloc :: "nat \<Rightarrow> 'w \<Rightarrow> ptr \<times> 'w"
  realloc :: "ptr \<Rightarrow> nat \<Rightarrow> 'w \<Rightarrow> ptr \<times> 'w"
  free :: "ptr \<Rightarrow> 'w \<Rightarrow> 'w"

text \<open>
  The loop \<open>for (auto index : fail_allocations) if (index == allocation_count) return NULL;\<close>
  of both hooks: it returns from the hook at the first entry equal to the counter.
\<close>

fun fail_listed :: "int list \<Rightarrow> int \<Rightarrow> bool" where
  "fail_listed [] n = False"
| "fail_listed (index # rest) n = (if index = n then True else fail_listed rest n)"

definition MallocHook :: "'w libc \<Rightarrow> nat \<Rightarrow> 'w globals \<Rightarrow> ptr \<times> 'w globals" where
  "MallocHook c sz g =
     (if fail_listed (fail_allocations g) (allocation_count g) then (None, g)
      else
        (let g1 = g\<lparr>allocation_count := allocation_count g + 1\<rparr>;
             (p, w) = malloc c sz (world g1)
         in (p, g1\<lparr>world := w\<rparr>)))"

definition ReallocHook :: "'w libc \<Rightarrow> ptr \<Rightarrow> nat \<Rightarrow> 'w globals \<Rightarrow> ptr \<times> 'w globals" where
  "ReallocHook c p sz g =
     (if fail_listed (fail_allocations g) (allocation_count g) then (None, g)
      else
        (let g1 = g\<lparr>allocation_count := allocation_count g + 1\<rparr>;
             (q, w) = realloc c p sz (world g1)
         in (q, g1\<lparr>world := w\<rparr>)))"

definition FreeHook :: "'w libc \<Rightarrow> ptr \<Rightarrow> 'w globals \<Rightarrow> 'w globals" where
  "FreeHook c p g = g\<lparr>world := free c p (world g)\<rparr>"

text \<open>
  The calls that the library makes through \<open>memory_handling_suite\<close> during one test
  case, in order, and what each returned. Nothing but the two hooks writes
  \<open>allocation_count\<close> once the test case is set up, and nothing writes
  \<open>fail_allocations\<close>.
\<close>

datatype hook_call = Malloc nat | Realloc ptr nat | Free ptr

datatype hook_result = Returned ptr | Freed

fun run_hook :: "'w libc \<Rightarrow> hook_call \<Rightarrow> 'w globals \<Rightarrow> hook_result \<times> 'w globals" where
  "run_hook c (Malloc sz) g = (let (p, g') = MallocHook c sz g in (Returned p, g'))"
| "run_hook c (Realloc p sz) g = (let (q, g') = ReallocHook c p sz g in (Returned q, g'))"
| "run_hook c (Free p) g = (Freed, FreeHook c p g)"

fun run_hooks :: "'w libc \<Rightarrow> hook_call list \<Rightarrow> 'w globals \<Rightarrow> hook_result list \<times> 'w globals" where
  "run_hooks c [] g = ([], g)"
| "run_hooks c (x # xs) g =
     (let (r, g1) = run_hook c x g; (rs, g2) = run_hooks c xs g1 in (r # rs, g2))"


subsection \<open>The library's interface (expat.h)\<close>

text \<open>
  Modelled from the spec: \<open>expat.h\<close> is not among the sources. Its status enum has the
  three values the specification names: error, OK and suspended. Where the harness keeps
  a status in an \<open>int\<close> (the result of the external-entity-reference callback), the
  model keeps the status.
\<close>

datatype XML_Status = XML_STATUS_ERROR | XML_STATUS_OK | XML_STATUS_SUSPENDED

text \<open>A parser handle is a pointer to a parser object of the library; it can be null.\<close>

type_synonym XML_Parser = "nat option"

text \<open>
  Modelled from the spec: the content model that the element-declaration callback
  receives (struct \<open>XML_cp\<close> of \<open>expat.h\<close>). \<open>children\<close> is a pointer to an array of
  nodes; \<open>numchildren\<close> is the count the library claims for it. A type tag outside the
  six named ones is \<open>XML_CTYPE_other\<close>.
\<close>

datatype XML_Content_Type =
    XML_CTYPE_EMPTY | XML_CTYPE_ANY | XML_CTYPE_MIXED | XML_CTYPE_NAME
  | XML_CTYPE_CHOICE | XML_CTYPE_SEQ | XML_CTYPE_other int

datatype XML_Content_Quant =
  XML_CQUANT_NONE | XML_CQUANT_OPT | XML_CQUANT_REP | XML_CQUANT_PLUS

datatype XML_Content =
  XML_Content (ctype: XML_Content_Type) (quant: XML_Content_Quant)
    (name: "string option") (numchildren: nat) (children: "XML_Content list option")

text \<open>The functions of the harness that are passed to the library as callbacks.\<close>

datatype handler =
    Fn_ElementDeclHandler | Fn_AttlistDeclHandler | Fn_XmlDeclHandler
  | Fn_StartElementHandler | Fn_EndElementHandler | Fn_CharacterDataHandler
  | Fn_ProcessingInstructionHandler | Fn_CommentHandler
  | Fn_StartCdataSectionHandler | Fn_EndCdataSectionHandler | Fn_DefaultHandler
  | Fn_StartDoctypeDeclHandler | Fn_EndDoctypeDeclHandler | Fn_EntityDeclHandler
  | Fn_NotationDeclHandler | Fn_StartNamespaceDeclHandler | Fn_EndNamespaceDeclHandler
  | Fn_NotStandaloneHandler | Fn_ExternalEntityRefHandler | Fn_SkippedEntityHandler
  | Fn_UnknownEncodingHandler

datatype XML_ParamEntityParsing =
    XML_PARAM_ENTITY_PARSING_NEVER
  | XML_PARAM_ENTITY_PARSING_UNLESS_STANDALONE
  | XML_PARAM_ENTITY_PARSING_ALWAYS

text \<open>The configuring calls of the library, each with its arguments after the parser.\<close>

datatype setting =
    SetUserData XML_Parser
  | SetHashSalt nat
  | SetParamEntityParsing XML_ParamEntityParsing
  | SetElementDeclHandler handler
  | SetAttlistDeclHandler handler
  | SetXmlDeclHandler handler
  | SetElementHandler handler handler
  | SetCharacterDataHandler handler
  | SetProcessingInstructionHandler handler
  | SetCommentHandler handler
  | SetCdataSectionHandler handler handler
  | SetDefaultHandlerExpand handler
  | SetDoctypeDeclHandler handler handler
  | SetEntityDeclHandler handler
  | SetNotationDeclHandler handler
  | SetNamespaceDeclHandler handler handler
  | SetNotStandaloneHandler handler
  | SetExternalEntityRefHandler handler
  | SetSkippedEntityHandler handler
  | SetUnknownEncodingHandler handler XML_Parser

text \<open>
  The library. While an entry point runs, the library calls the hooks and the callbacks
  of the harness. Of the static variables, these read all and write only
  \<open>allocation_count\<close> (the hooks); \<open>g_encoding\<close>, \<open>external_entity\<close>,
  \<open>external_entity_size\<close> and \<open>fail_allocations\<close> are written by the entry function and
  \<open>SetEncoding\<close> alone. So an entry point is given the state, and gives back its
  result, the new \<open>allocation_count\<close> and the new \<open>world\<close>. It gives \<open>None\<close> when control
  does not come back from it (the process was ended inside the call by a failed
  assertion or a sanitizer report in a callback, or the call runs forever).
  \<open>XML_ParserCreate_MM\<close> is always given the harness's \<open>memory_handling_suite\<close>, so the
  suite is not an argument here. The results the harness ignores are left out.
\<close>

type_synonym ('a, 'w) entry_point = "'w globals \<Rightarrow> ('a \<times> int \<times> 'w) option"

record 'w libexpat =
  XML_ParserCreate_MM :: "string option \<Rightarrow> string \<Rightarrow> (XML_Parser, 'w) entry_point"
  XML_ExternalEntityParserCreate ::
    "XML_Parser \<Rightarrow> string option \<Rightarrow> string option \<Rightarrow> (XML_Parser, 'w) entry_point"
  XML_Parse :: "XML_Parser \<Rightarrow> string option \<Rightarrow> int \<Rightarrow> int \<Rightarrow> (XML_Status, 'w) entry_point"
  XML_ResumeParser :: "XML_Parser \<Rightarrow> (XML_Status, 'w) entry_point"
  XML_StopParser :: "XML_Parser \<Rightarrow> bool \<Rightarrow> (unit, 'w) entry_point"
  XML_ParserReset :: "XML_Parser \<Rightarrow> string option \<Rightarrow> (unit, 'w) entry_point"
  XML_ParserFree :: "XML_Parser \<Rightarrow> (unit, 'w) entry_point"
  XML_FreeContentModel :: "XML_Parser \<Rightarrow> XML_Content \<Rightarrow> (unit, 'w) entry_point"
  XML_Set :: "XML_Parser \<Rightarrow> setting \<Rightarrow> (unit, 'w) entry_point"

subsection \<open>What a run of harness code does, in order\<close>

text \<open>
  The record of a function of the harness: the calls into the library that the function
  makes itself, with the value each returned, and its calls of \<open>TouchString\<close>, in
  order. What a callback does while one of these calls runs is not in the caller's
  record: it happens inside the entry point, whose whole effect on the state is the
  entry point's result, and a callback has a record of its own when it is the function
  that is run. The library cannot see or change the record: it is kept beside the state.
\<close>

datatype event =
    Ev_ParserCreate_MM "string option" string XML_Parser
  | Ev_ExternalEntityParserCreate XML_Parser "string option" "string option" XML_Parser
  | Ev_Parse XML_Parser "string option" int int XML_Status
  | Ev_ResumeParser XML_Parser XML_Status
  | Ev_StopParser XML_Parser bool
  | Ev_ParserReset XML_Parser "string option"
  | Ev_ParserFree XML_Parser
  | Ev_FreeContentModel XML_Parser XML_Content
  | Ev_Set XML_Parser setting
  | Ev_TouchString "string option" int

type_synonym 'w run = "'w globals \<times> event list"

text \<open>A call of an entry point from harness code: the state after it, and its record.\<close>

definition lib_call :: "('a, 'w) entry_point \<Rightarrow> ('a \<Rightarrow> event) \<Rightarrow> 'w run \<Rightarrow> ('a \<times> 'w run) option" where
  "lib_call f ev r =
     (case f (fst r) of
        None \<Rightarrow> None
      | Some (x, n, w) \<Rightarrow>
          Some (x, ((fst r)\<lparr>allocation_count := n, world := w\<rparr>, snd r @ [ev x])))"

definition call_ParserCreate_MM ::
  "'w libexpat \<Rightarrow> string option \<Rightarrow> string \<Rightarrow> 'w run \<Rightarrow> (XML_Parser \<times> 'w run) option" where
  "call_ParserCreate_MM L enc sep r =
     lib_call (XML_ParserCreate_MM L enc sep) (Ev_ParserCreate_MM enc sep) r"

definition call_ExternalEntityParserCreate ::
  "'w libexpat \<Rightarrow> XML_Parser \<Rightarrow> string option \<Rightarrow> string option \<Rightarrow> 'w run
     \<Rightarrow> (XML_Parser \<times> 'w run) option" where
  "call_ExternalEntityParserCreate L parser context enc r =
     lib_call (XML_ExternalEntityParserCreate L parser context enc)
       (Ev_ExternalEntityParserCreate parser context enc) r"

definition call_Parse ::
  "'w libexpat \<Rightarrow> XML_Parser \<Rightarrow> string option \<Rightarrow> int \<Rightarrow> int \<Rightarrow> 'w run
     \<Rightarrow> (XML_Status \<times> 'w run) option" where
  "call_Parse L parser input input_len is_final r =
     lib_call (XML_Parse L parser input input_len is_final)
       (Ev_Parse parser input input_len is_final) r"

definition call_ResumeParser ::
  "'w libexpat \<Rightarrow> XML_Parser \<Rightarrow> 'w run \<Rightarrow> (XML_Status \<times> 'w run) option" where
  "call_ResumeParser L parser r =
     lib_call (XML_ResumeParser L parser) (Ev_ResumeParser parser) r"

definition call_StopParser :: "'w libexpat \<Rightarrow> XML_Parser \<Rightarrow> bool \<Rightarrow> 'w run \<Rightarrow> 'w run option" where
  "call_StopParser L parser resumable r =
     map_option snd
       (lib_call (XML_StopParser L parser resumable) (\<lambda>_. Ev_StopParser parser resumable) r)"

definition call_ParserReset ::
  "'w libexpat \<Rightarrow> XML_Parser \<Rightarrow> string option \<Rightarrow> 'w run \<Rightarrow> 'w run option" where
  "call_ParserReset L parser enc r =
     map_option snd (lib_call (XML_ParserReset L parser enc) (\<lambda>_. Ev_ParserReset parser enc) r)"

definition call_ParserFree :: "'w libexpat \<Rightarrow> XML_Parser \<Rightarrow> 'w run \<Rightarrow> 'w run option" where
  "call_ParserFree L parser r =
     map_option snd (lib_call (XML_ParserFree L parser) (\<lambda>_. Ev_ParserFree parser) r)"

definition call_FreeContentModel ::
  "'w libexpat \<Rightarrow> XML_Parser \<Rightarrow> XML_Content \<Rightarrow> 'w run \<Rightarrow> 'w run option" where
  "call_FreeContentModel L parser model r =
     map_option snd
       (lib_call (XML_FreeContentModel L parser model) (\<lambda>_. Ev_FreeContentModel parser model) r)"

definition call_Set :: "'w libexpat \<Rightarrow> XML_Parser \<Rightarrow> setting \<Rightarrow> 'w run \<Rightarrow> 'w run option" where
  "call_Set L parser x r =
     map_option snd (lib_call (XML_Set L parser x) (\<lambda>_. Ev_Set parser x) r)"

subsection \<open>Parse: the feed wrapper\<close>

text \<open>
  \<open>while (status == XML_STATUS_SUSPENDED) status = XML_ResumeParser(parser);\<close>
  The loop has no bound of its own, so it is a partial function: \<open>None\<close> is "does not
  return".
\<close>

partial_function (option) resume_while ::
  "'w libexpat \<Rightarrow> XML_Parser \<Rightarrow> XML_Status \<Rightarrow> 'w run \<Rightarrow> (XML_Status \<times> 'w run) option" where
  "resume_while L parser status r =
     (if status = XML_STATUS_SUSPENDED then
        (case call_ResumeParser L parser r of
           None \<Rightarrow> None
         | Some (status', r') \<Rightarrow> resume_while L parser status' r')
      else Some (status, r))"

definition Parse ::
  "'w libexpat \<Rightarrow> XML_Parser \<Rightarrow> string option \<Rightarrow> int \<Rightarrow> int \<Rightarrow> 'w run
     \<Rightarrow> (XML_Status \<times> 'w run) option" where
  "Parse L parser input input_len is_final r =
     (case call_Parse L parser input input_len is_final r of
        None \<Rightarrow> None
      | Some (status, r') \<Rightarrow> resume_while L parser status r')"

subsection \<open>TouchString and TouchChildNodes\<close>

text \<open>
  The two ways in which a callback ends the process: a failed \<open>assert\<close> (the file
  undefines \<open>NDEBUG\<close>), and a read outside the region of a pointer, which the
  sanitizer reports.
\<close>

datatype abort = AssertionFailed | MemoryFault

text \<open>\<open>for (XML_Char value = *ptr++; value; value = *ptr++)\<close>: read up to the terminator.\<close>

fun touch_terminated :: "string \<Rightarrow> abort + unit" where
  "touch_terminated [] = Inl MemoryFault"
| "touch_terminated (v # rest) = (if v = CHR 0x00 then Inr () else touch_terminated rest)"

text \<open>\<open>for (int i = 0; i < len; ++i)\<close>: read \<open>len\<close> units.\<close>

fun touch_counted :: "string \<Rightarrow> nat \<Rightarrow> abort + unit" where
  "touch_counted buf 0 = Inr ()"
| "touch_counted [] (Suc n) = Inl MemoryFault"
| "touch_counted (v # rest) (Suc n) = touch_counted rest n"

text \<open>
  The accumulator \<open>no_optimize\<close> is only ever added to and never read, so its value is
  left out; what \<open>TouchString\<close> does is the reads.
\<close>

definition TouchString :: "string option \<Rightarrow> int \<Rightarrow> abort + unit" where
  "TouchString ptr len =
     (case ptr of
        None \<Rightarrow> Inr ()
      | Some buf \<Rightarrow> if len = - 1 then touch_terminated buf else touch_counted buf (nat len))"

definition touch :: "string option \<Rightarrow> int \<Rightarrow> 'w run \<Rightarrow> abort + 'w run" where
  "touch ptr len r =
     (case TouchString ptr len of
        Inl a \<Rightarrow> Inl a
      | Inr _ \<Rightarrow> Inr (fst r, snd r @ [Ev_TouchString ptr len]))"

text \<open>
  The loop of the \<open>XML_CTYPE_MIXED\<close> case over \<open>children[0 .. numchildren - 1]\<close>: the
  array that is left, and the number of nodes still to visit. Visiting a node beyond
  the array is a read outside it.
\<close>

fun touch_mixed_children :: "XML_Content list \<Rightarrow> nat \<Rightarrow> abort + event list" where
  "touch_mixed_children cs 0 = Inr []"
| "touch_mixed_children [] (Suc n) = Inl MemoryFault"
| "touch_mixed_children (c # cs) (Suc n) =
     (if ctype c \<noteq> XML_CTYPE_NAME then Inl AssertionFailed
      else if numchildren c \<noteq> 0 then Inl AssertionFailed
      else
        (case TouchString (name c) (- 1) of
           Inl a \<Rightarrow> Inl a
         | Inr _ \<Rightarrow>
             (case touch_mixed_children cs n of
                Inl a \<Rightarrow> Inl a
              | Inr es \<Rightarrow> Inr (Ev_TouchString (name c) (- 1) # es))))"

text \<open>
  \<open>TouchChildNodes\<close>, with the loop of its \<open>XML_CTYPE_CHOICE\<close>/\<open>XML_CTYPE_SEQ\<close> case
  (\<open>touch_children\<close>). The result is the failure that ended the process, or the calls
  of \<open>TouchString\<close> made, in order. The parameter \<open>topLevel\<close> is never read.
\<close>

fun TouchChildNodes :: "XML_Content \<Rightarrow> abort + event list"
  and touch_children :: "XML_Content list \<Rightarrow> nat \<Rightarrow> abort + event list" where
  "TouchChildNodes (XML_Content t q nm k chs) =
     (if t = XML_CTYPE_EMPTY \<or> t = XML_CTYPE_ANY then
        (if q \<noteq> XML_CQUANT_NONE then Inl AssertionFailed
         else if nm \<noteq> None then Inl AssertionFailed
         else if k \<noteq> 0 then Inl AssertionFailed
         else if chs \<noteq> None then Inl AssertionFailed
         else Inr [])
      else if t = XML_CTYPE_MIXED then
        (if \<not> (q = XML_CQUANT_NONE \<or> q = XML_CQUANT_REP) then Inl AssertionFailed
         else if nm \<noteq> None then Inl AssertionFailed
         else
           (case chs of
              None \<Rightarrow> if k = 0 then Inr [] else Inl MemoryFault
            | Some cs \<Rightarrow> touch_mixed_children cs k))
      else if t = XML_CTYPE_NAME then
        (if k \<noteq> 0 then Inl AssertionFailed
         else
           (case TouchString nm (- 1) of
              Inl a \<Rightarrow> Inl a
            | Inr _ \<Rightarrow> Inr [Ev_TouchString nm (- 1)]))
      else if t = XML_CTYPE_CHOICE \<or> t = XML_CTYPE_SEQ then
        (if nm \<noteq> None then Inl AssertionFailed
         else
           (case chs of
              None \<Rightarrow> if k = 0 then Inr [] else Inl MemoryFault
            | Some cs \<Rightarrow> touch_children cs k))
      else Inl AssertionFailed)"
| "touch_children cs 0 = Inr []"
| "touch_children [] (Suc n) = Inl MemoryFault"
| "touch_children (c # cs) (Suc n) =
     (case TouchChildNodes c of
        Inl a \<Rightarrow> Inl a
      | Inr es \<Rightarrow>
          (case touch_children cs n of
             Inl a \<Rightarrow> Inl a
           | Inr es' \<Rightarrow> Inr (es @ es')))"

subsection \<open>The callbacks with behaviour of their own\<close>

text \<open>
  A callback gives \<open>Some (Inl a)\<close> when it ends the process, \<open>None\<close> when a call into the
  library does not come back, and \<open>Some (Inr x)\<close> when it returns.
\<close>

definition ElementDeclHandler ::
  "'w libexpat \<Rightarrow> XML_Parser \<Rightarrow> string option \<Rightarrow> XML_Content \<Rightarrow> 'w run
     \<Rightarrow> (abort + 'w run) option" where
  "ElementDeclHandler L userData nm model r =
     (case touch nm (- 1) r of
        Inl a \<Rightarrow> Some (Inl a)
      | Inr r1 \<Rightarrow>
          (case TouchChildNodes model of
             Inl a \<Rightarrow> Some (Inl a)
           | Inr es \<Rightarrow>
               (case call_FreeContentModel L userData model (fst r1, snd r1 @ es) of
                  None \<Rightarrow> None
                | Some r2 \<Rightarrow> Some (Inr r2))))"

definition CommentHandler ::
  "'w libexpat \<Rightarrow> XML_Parser \<Rightarrow> string option \<Rightarrow> 'w run \<Rightarrow> (abort + 'w run) option" where
  "CommentHandler L userData data r =
     (case touch data (- 1) r of
        Inl a \<Rightarrow> Some (Inl a)
      | Inr r1 \<Rightarrow>
          (case call_StopParser L userData True r1 of
             None \<Rightarrow> None
           | Some r2 \<Rightarrow> Some (Inr r2)))"

text \<open>The conversion of a \<open>size_t\<close> to the \<open>int\<close> parameter \<open>input_len\<close>.\<close>

definition size_to_int :: "nat \<Rightarrow> int" where
  "size_to_int n = sint (word_of_nat n :: 32 word)"

definition ExternalEntityRefHandler ::
  "'w libexpat \<Rightarrow> XML_Parser \<Rightarrow> string option \<Rightarrow> string option \<Rightarrow> string option
     \<Rightarrow> string option \<Rightarrow> 'w run \<Rightarrow> (abort + XML_Status \<times> 'w run) option" where
  "ExternalEntityRefHandler L parser context base systemId publicId r =
     (let rc = XML_STATUS_ERROR in
      (case touch context (- 1) r of Inl a \<Rightarrow> Some (Inl a) | Inr r1 \<Rightarrow>
      (case touch base (- 1) r1 of Inl a \<Rightarrow> Some (Inl a) | Inr r2 \<Rightarrow>
      (case touch systemId (- 1) r2 of Inl a \<Rightarrow> Some (Inl a) | Inr r3 \<Rightarrow>
      (case touch publicId (- 1) r3 of Inl a \<Rightarrow> Some (Inl a) | Inr r4 \<Rightarrow>
        (if external_entity (fst r4) \<noteq> None then
          (case call_ExternalEntityParserCreate L parser context (g_encoding (fst r4)) r4 of
             None \<Rightarrow> None
           | Some (ext_parser, r5) \<Rightarrow>
               (case Parse L ext_parser (external_entity (fst r5))
                       (size_to_int (external_entity_size (fst r5))) 1 r5 of
                  None \<Rightarrow> None
                | Some (status, r6) \<Rightarrow>
                    (case call_ParserFree L ext_parser r6 of
                       None \<Rightarrow> None
                     | Some r7 \<Rightarrow> Some (Inr (status, r7)))))
         else Some (Inr (rc, r4))))))))"

subsection \<open>InitializeParser\<close>

definition parser_settings :: "XML_Parser \<Rightarrow> setting list" where
  "parser_settings parser =
     [SetUserData parser,
      SetHashSalt 0x41414141,
      SetParamEntityParsing XML_PARAM_ENTITY_PARSING_ALWAYS,
      SetElementDeclHandler Fn_ElementDeclHandler,
      SetAttlistDeclHandler Fn_AttlistDeclHandler,
      SetXmlDeclHandler Fn_XmlDeclHandler,
      SetElementHandler Fn_StartElementHandler Fn_EndElementHandler,
      SetCharacterDataHandler Fn_CharacterDataHandler,
      SetProcessingInstructionHandler Fn_ProcessingInstructionHandler,
      SetCommentHandler Fn_CommentHandler,
      SetCdataSectionHandler Fn_StartCdataSectionHandler Fn_EndCdataSectionHandler,
      SetDefaultHandlerExpand Fn_DefaultHandler,
      SetDoctypeDeclHandler Fn_StartDoctypeDeclHandler Fn_EndDoctypeDeclHandler,
      SetEntityDeclHandler Fn_EntityDeclHandler,
      SetNotationDeclHandler Fn_NotationDeclHandler,
      SetNamespaceDeclHandler Fn_StartNamespaceDeclHandler Fn_EndNamespaceDeclHandler,
      SetNotStandaloneHandler Fn_NotStandaloneHandler,
      SetExternalEntityRefHandler Fn_ExternalEntityRefHandler,
      SetSkippedEntityHandler Fn_SkippedEntityHandler,
      SetUnknownEncodingHandler Fn_UnknownEncodingHandler parser]"

fun set_each :: "'w libexpat \<Rightarrow> XML_Parser \<Rightarrow> setting list \<Rightarrow> 'w run \<Rightarrow> 'w run option" where
  "set_each L parser [] r = Some r"
| "set_each L parser (x # xs) r =
     (case call_Set L parser x r of
        None \<Rightarrow> None
      | Some r' \<Rightarrow> set_each L parser xs r')"

definition InitializeParser :: "'w libexpat \<Rightarrow> XML_Parser \<Rightarrow> 'w run \<Rightarrow> 'w run option" where
  "InitializeParser L parser r = set_each L parser (parser_settings parser) r"

subsection \<open>The entry point (DEFINE_TEXT_PROTO_FUZZER)\<close>

text \<open>
  One iteration of the replay loop. \<open>data()\<close> of a string is never null, so the
  pointers handed on are \<open>Some\<close>.
\<close>

fun replay_action :: "'w libexpat \<Rightarrow> XML_Parser \<Rightarrow> Action \<Rightarrow> 'w run \<Rightarrow> 'w run option" where
  "replay_action L parser (Chunk data) r =
     (case Parse L parser (Some data) (size_to_int (length data)) 0 r of
        None \<Rightarrow> None
      | Some (status, r1) \<Rightarrow>
          if status = XML_STATUS_ERROR
          then call_ParserReset L parser (g_encoding (fst r1)) r1
          else Some r1)"
| "replay_action L parser (LastChunk data) r =
     (case Parse L parser (Some data) (size_to_int (length data)) 1 r of
        None \<Rightarrow> None
      | Some (status, r1) \<Rightarrow>
          (case call_ParserReset L parser (g_encoding (fst r1)) r1 of
             None \<Rightarrow> None
           | Some r2 \<Rightarrow> InitializeParser L parser r2))"
| "replay_action L parser Reset r =
     (case call_ParserReset L parser (g_encoding (fst r)) r of
        None \<Rightarrow> None
      | Some r1 \<Rightarrow> InitializeParser L parser r1)"
| "replay_action L parser (ExternalEntity data) r =
     Some ((fst r)\<lparr>external_entity := Some data, external_entity_size := length data\<rparr>, snd r)"
| "replay_action L parser ACTION_NOT_SET r = Some r"

fun replay :: "'w libexpat \<Rightarrow> XML_Parser \<Rightarrow> Action list \<Rightarrow> 'w run \<Rightarrow> 'w run option" where
  "replay L parser [] r = Some r"
| "replay L parser (action # rest) r =
     (case replay_action L parser action r of
        None \<Rightarrow> None
      | Some r' \<Rightarrow> replay L parser rest r')"

text \<open>\<open>fail_allocations.clear()\<close> followed by one \<open>push_back\<close> per entry of the test case.\<close>

definition push_back_all :: "int list \<Rightarrow> int list" where
  "push_back_all xs = foldl (\<lambda>v x. v @ [x]) [] xs"

definition TestOneProtoInput :: "'w libexpat \<Rightarrow> Testcase \<Rightarrow> 'w run \<Rightarrow> 'w run option" where
  "TestOneProtoInput L testcase r =
     (let g0 = (fst r)\<lparr>external_entity := None\<rparr> in
      if length (tc_actions testcase) = 0 then Some (g0, snd r)
      else
        (let g1 = g0\<lparr>allocation_count := 0\<rparr>;
             g2 = g1\<lparr>fail_allocations := push_back_all (tc_fail_allocations testcase)\<rparr>;
             g3 = SetEncoding (tc_encoding testcase) g2
         in
           (case call_ParserCreate_MM L (g_encoding g3) ''|'' (g3, snd r) of
              None \<Rightarrow> None
            | Some (parser, r1) \<Rightarrow>
                (case InitializeParser L parser r1 of
                   None \<Rightarrow> None
                 | Some r2 \<Rightarrow>
                     (case replay L parser (tc_actions testcase) r2 of
                        None \<Rightarrow> None
                      | Some r3 \<Rightarrow> call_ParserFree L parser r3)))))"

subsection \<open>Auxiliary notions for the statements\<close>

text \<open>
  The outcome of the \<open>k + 1\<close>-th of a row of successive calls of \<open>XML_ResumeParser\<close> on a
  parser, from a given state.
\<close>

fun resumes :: "'w libexpat \<Rightarrow> XML_Parser \<Rightarrow> nat \<Rightarrow> 'w globals \<Rightarrow> (XML_Status \<times> 'w globals) option" where
  "resumes L parser 0 g =
     (case XML_ResumeParser L parser g of
        None \<Rightarrow> None
      | Some (s, n, w) \<Rightarrow> Some (s, g\<lparr>allocation_count := n, world := w\<rparr>))"
| "resumes L parser (Suc k) g =
     (case XML_ResumeParser L parser g of
        None \<Rightarrow> None
      | Some (s, n, w) \<Rightarrow> resumes L parser k (g\<lparr>allocation_count := n, world := w\<rparr>))"

text \<open>Whether every entry point of the library that the replay calls comes back.\<close>

definition always_returns :: "'w libexpat \<Rightarrow> bool" where
  "always_returns L \<longleftrightarrow>
     (\<forall>enc sep g. XML_ParserCreate_MM L enc sep g \<noteq> None) \<and>
     (\<forall>p i n f g. XML_Parse L p i n f g \<noteq> None) \<and>
     (\<forall>p g. XML_ResumeParser L p g \<noteq> None) \<and>
     (\<forall>p enc g. XML_ParserReset L p enc g \<noteq> None) \<and>
     (\<forall>p g. XML_ParserFree L p g \<noteq> None) \<and>
     (\<forall>p x g. XML_Set L p x g \<noteq> None)"

text \<open>
  Whether, from every state, some finite row of successive calls of \<open>XML_ResumeParser\<close>
  ends with a status other than suspended: the progress that the loop of \<open>Parse\<close>
  relies on.
\<close>

definition resume_progress :: "'w libexpat \<Rightarrow> bool" where
  "resume_progress L \<longleftrightarrow>
     (\<forall>p g. \<exists>k s g'. resumes L p k g = Some (s, g') \<and> s \<noteq> XML_STATUS_SUSPENDED)"

text \<open>
  The calls that the replay loop and \<open>InitializeParser\<close> make: feeding, resuming,
  resetting and configuring, each on the given parser.
\<close>

fun replay_event :: "XML_Parser \<Rightarrow> event \<Rightarrow> bool" where
  "replay_event parser (Ev_Parse p input n f s) = (p = parser)"
| "replay_event parser (Ev_ResumeParser p s) = (p = parser)"
| "replay_event parser (Ev_ParserReset p enc) = (p = parser)"
| "replay_event parser (Ev_Set p x) = (p = parser)"
| "replay_event parser _ = False"

text \<open>
  The state after the configuring calls of a list, made in order on a parser: what
  \<open>InitializeParser\<close> does to the state, without the record.
\<close>

fun configure :: "'w libexpat \<Rightarrow> XML_Parser \<Rightarrow> setting list \<Rightarrow> 'w globals \<Rightarrow> 'w globals option" where
  "configure L parser [] g = Some g"
| "configure L parser (x # xs) g =
     (case XML_Set L parser x g of
        None \<Rightarrow> None
      | Some (u, n, w) \<Rightarrow> configure L parser xs (g\<lparr>allocation_count := n, world := w\<rparr>))"

subsection \<open>A stand-in library and allocator, to run the model on concrete inputs\<close>

text \<open>
  Not the XML parser: the smallest library with the three statuses. Its world is the
  number of suspensions the fed text still holds. Every \<open>!\<close> of a chunk stands for a
  comment (the parse suspends there), a \<open>?\<close> for a syntax error.
\<close>

definition demo_Parse :: "string option \<Rightarrow> nat globals \<Rightarrow> (XML_Status \<times> int \<times> nat) option" where
  "demo_Parse input g =
     (case input of
        None \<Rightarrow> Some (XML_STATUS_ERROR, allocation_count g, world g)
      | Some s \<Rightarrow>
          if CHR ''?'' \<in> set s then Some (XML_STATUS_ERROR, allocation_count g, 0)
          else if CHR ''!'' \<in> set s
          then Some (XML_STATUS_SUSPENDED, allocation_count g, count_list s CHR ''!'' - 1)
          else Some (XML_STATUS_OK, allocation_count g, 0))"

definition demo_Resume :: "nat globals \<Rightarrow> (XML_Status \<times> int \<times> nat) option" where
  "demo_Resume g =
     (if world g = 0 then Some (XML_STATUS_OK, allocation_count g, 0)
      else Some (XML_STATUS_SUSPENDED, allocation_count g, world g - 1))"

definition demo_void :: "nat globals \<Rightarrow> (unit \<times> int \<times> nat) option" where
  "demo_void g = Some ((), allocation_count g, world g)"

definition demo_lib :: "nat libexpat" where
  "demo_lib =
     \<lparr>XML_ParserCreate_MM = (\<lambda>enc sep g. Some (Some 1, allocation_count g, world g)),
      XML_ExternalEntityParserCreate = (\<lambda>p c enc g. Some (Some 2, allocation_count g, world g)),
      XML_Parse = (\<lambda>p input n f. demo_Parse input),
      XML_ResumeParser = (\<lambda>p. demo_Resume),
      XML_StopParser = (\<lambda>p b. demo_void),
      XML_ParserReset = (\<lambda>p enc. demo_void),
      XML_ParserFree = (\<lambda>p. demo_void),
      XML_FreeContentModel = (\<lambda>p m. demo_void),
      XML_Set = (\<lambda>p x. demo_void)\<rparr>"

definition demo_libc :: "nat libc" where
  "demo_libc =
     \<lparr>malloc = (\<lambda>sz w. (Some (Suc w), Suc w)),
      realloc = (\<lambda>p sz w. (Some (Suc w), Suc w)),
      free = (\<lambda>p w. w)\<rparr>"

definition demo_globals :: "int \<Rightarrow> int list \<Rightarrow> nat globals" where
  "demo_globals n fl =
     \<lparr>g_encoding = None, external_entity = None, external_entity_size = 0,
      allocation_count = n, fail_allocations = fl, world = 0\<rparr>"

subsection \<open>A library that keeps the registrations and allocates through the hooks\<close>

text \<open>
  Modelled from the spec: the parser library is not among the sources. This small
  library keeps what the specification says of the real one. A reset clears the callback
  registrations, which is why the harness registers again after a reset. A comment is
  delivered to the comment handler when one is registered, and the handler's request
  suspends the parse, which a resume continues. An allocation that is forced to fail
  comes out of the library as an out-of-memory condition: a construction whose
  allocation fails returns the null pointer. Every entry point accepts the null parser
  and does nothing on it. As in the other stand-in, a \<open>!\<close> of a chunk stands for a comment
  and a \<open>?\<close> for a syntax error. The world counts the comments parsed, the requests to
  stop, and the parsers and content models freed, so that a run shows which calls were
  made on it.
\<close>

record lib_world =
  heap :: nat
  comment_handler :: bool
  parsing_suspended :: bool
  comments_left :: nat
  comments_parsed :: nat
  stop_requests :: nat
  parsers_freed :: nat
  models_freed :: nat

definition track_libc :: "lib_world libc" where
  "track_libc =
     \<lparr>malloc = (\<lambda>sz w. (Some (Suc (heap w)), w\<lparr>heap := Suc (heap w)\<rparr>)),
      realloc = (\<lambda>p sz w. (Some (Suc (heap w)), w\<lparr>heap := Suc (heap w)\<rparr>)),
      free = (\<lambda>p w. w)\<rparr>"

definition track_same :: "lib_world globals \<Rightarrow> ('a \<Rightarrow> ('a \<times> int \<times> lib_world) option)" where
  "track_same g x = Some (x, allocation_count g, world g)"

text \<open>A construction allocates the parser through \<open>MallocHook\<close>; the handle is the pointer.\<close>

definition track_create :: "lib_world globals \<Rightarrow> (XML_Parser \<times> int \<times> lib_world) option" where
  "track_create g =
     (let (p, g') = MallocHook track_libc 1 g in Some (p, allocation_count g', world g'))"

definition track_core :: "lib_world libexpat" where
  "track_core =
     \<lparr>XML_ParserCreate_MM = (\<lambda>enc sep. track_create),
      XML_ExternalEntityParserCreate =
        (\<lambda>p c enc g. if p = None then track_same g None else track_create g),
      XML_Parse = (\<lambda>p input n f g. None),
      XML_ResumeParser = (\<lambda>p g. None),
      XML_StopParser =
        (\<lambda>p b g. if p = None then track_same g ()
           else Some ((), allocation_count g,
             (world g)\<lparr>parsing_suspended := True,
                       stop_requests := Suc (stop_requests (world g))\<rparr>)),
      XML_ParserReset =
        (\<lambda>p enc g. if p = None then track_same g ()
           else Some ((), allocation_count g,
             (world g)\<lparr>comment_handler := False, parsing_suspended := False,
                       comments_left := 0\<rparr>)),
      XML_ParserFree =
        (\<lambda>p g. if p = None then track_same g ()
           else Some ((), allocation_count g,
             (world g)\<lparr>parsers_freed := Suc (parsers_freed (world g))\<rparr>)),
      XML_FreeContentModel =
        (\<lambda>p m g. if p = None then track_same g ()
           else Some ((), allocation_count g,
             (world g)\<lparr>models_freed := Suc (models_freed (world g))\<rparr>)),
      XML_Set =
        (\<lambda>p x g. if p = None then track_same g ()
           else (case x of
                   SetCommentHandler h \<Rightarrow>
                     Some ((), allocation_count g, (world g)\<lparr>comment_handler := True\<rparr>)
                 | _ \<Rightarrow> track_same g ()))\<rparr>"

text \<open>
  The parse of the comments still to come. A comment is counted; when a comment handler
  is registered the library runs the harness's \<open>CommentHandler\<close> on it, with the parser as
  user data, and stops there if the parse was suspended.
\<close>

fun track_comments :: "nat \<Rightarrow> XML_Parser \<Rightarrow> lib_world globals \<Rightarrow> (XML_Status \<times> int \<times> lib_world) option" where
  "track_comments 0 p g = Some (XML_STATUS_OK, allocation_count g, world g)"
| "track_comments (Suc k) p g =
     (let g1 = g\<lparr>world := (world g)\<lparr>comments_parsed := Suc (comments_parsed (world g))\<rparr>\<rparr> in
      if comment_handler (world g1) then
        (case CommentHandler track_core p (Some [CHR ''c'', CHR 0x00]) (g1, []) of
           Some (Inr r) \<Rightarrow>
             if parsing_suspended (world (fst r))
             then Some (XML_STATUS_SUSPENDED, allocation_count (fst r),
                    (world (fst r))\<lparr>comments_left := k\<rparr>)
             else track_comments k p (fst r)
         | _ \<Rightarrow> None)
      else track_comments k p g1)"

definition track_Parse ::
  "XML_Parser \<Rightarrow> string option \<Rightarrow> lib_world globals \<Rightarrow> (XML_Status \<times> int \<times> lib_world) option" where
  "track_Parse p input g =
     (if p = None then track_same g XML_STATUS_ERROR
      else
        (case input of
           None \<Rightarrow> track_same g XML_STATUS_ERROR
         | Some s \<Rightarrow>
             if CHR ''?'' \<in> set s then track_same g XML_STATUS_ERROR
             else track_comments (count_list s CHR ''!'') p g))"

definition track_Resume ::
  "XML_Parser \<Rightarrow> lib_world globals \<Rightarrow> (XML_Status \<times> int \<times> lib_world) option" where
  "track_Resume p g =
     (if p = None \<or> \<not> parsing_suspended (world g) then track_same g XML_STATUS_ERROR
      else track_comments (comments_left (world g)) p
             (g\<lparr>world := (world g)\<lparr>parsing_suspended := False\<rparr>\<rparr>))"

definition track_lib :: "lib_world libexpat" where
  "track_lib =
     track_core\<lparr>XML_Parse := (\<lambda>p input n f. track_Parse p input),
                XML_ResumeParser := track_Resume\<rparr>"

definition track_globals :: "lib_world globals" where
  "track_globals =
     \<lparr>g_encoding = None, external_entity = None, external_entity_size = 0,
      allocation_count = 0, fail_allocations = [],
      world = \<lparr>heap = 0, comment_handler = False, parsing_suspended = False,
                comments_left = 0, comments_parsed = 0, stop_requests = 0,
                parsers_freed = 0, models_freed = 0\<rparr>\<rparr>"

text \<open>The state of that library after a construction and \<open>InitializeParser\<close>.\<close>

definition track_registered :: "lib_world globals" where
  "track_registered =
     track_globals\<lparr>allocation_count := 1,
       world := \<lparr>heap = 1, comment_handler = True, parsing_suspended = False,
                 comments_left = 0, comments_parsed = 0, stop_requests = 0,
                parsers_freed = 0, models_freed = 0\<rparr>\<rparr>"

subsection \<open>The shape of a content model, in the words of the specification\<close>

text \<open>
  These definitions follow the specification and not the code; the code is
  \<open>TouchChildNodes\<close>. A node of type EMPTY or ANY has no name, no children and no
  quantifier; the children of a MIXED node are of type NAME and have no children
  themselves, and being NAME nodes have a name that passes \<open>name_ok\<close>; a NAME node
  has a name that passes \<open>name_ok\<close> and no children; the
  children of a CHOICE or SEQ node have the shape in turn; there is no other type. The
  children of a node are the first \<open>numchildren\<close> nodes of its array, which has to hold
  that many.

  \<open>has_readable_name\<close>: the node has a name (the pointer is not null) and the name can
  be read to its terminator. \<open>readable_if_present\<close>: the name can be read to its
  terminator unless the pointer is null.
\<close>

definition has_readable_name :: "string option \<Rightarrow> bool" where
  "has_readable_name nm = (case nm of None \<Rightarrow> False | Some buf \<Rightarrow> CHR 0x00 \<in> set buf)"

definition readable_if_present :: "string option \<Rightarrow> bool" where
  "readable_if_present nm = (case nm of None \<Rightarrow> True | Some buf \<Rightarrow> CHR 0x00 \<in> set buf)"

function shape :: "(string option \<Rightarrow> bool) \<Rightarrow> XML_Content \<Rightarrow> bool" where
  "shape name_ok (XML_Content t q nm k chs) =
     (if t = XML_CTYPE_EMPTY \<or> t = XML_CTYPE_ANY then
        nm = None \<and> k = 0 \<and> chs = None \<and> q = XML_CQUANT_NONE
      else if t = XML_CTYPE_MIXED then
        (case chs of
           None \<Rightarrow> k = 0
         | Some cs \<Rightarrow>
             k \<le> length cs \<and>
             list_all (\<lambda>c. ctype c = XML_CTYPE_NAME \<and> numchildren c = 0 \<and> name_ok (name c))
               (take k cs))
      else if t = XML_CTYPE_NAME then name_ok nm \<and> k = 0
      else if t = XML_CTYPE_CHOICE \<or> t = XML_CTYPE_SEQ then
        (case chs of
           None \<Rightarrow> k = 0
         | Some cs \<Rightarrow> k \<le> length cs \<and> list_all (shape name_ok) (take k cs))
      else False)"
  by pat_completeness auto
termination
proof (relation "measure (\<lambda>(name_ok, c). size c)", goal_cases)
  case 1
  show ?case by simp
next
  case (2 name_ok t q nm k chs cs x)
  from 2(6) have "x \<in> set cs" by (rule in_set_takeD)
  then have "size x \<le> size_list size cs" by (rule size_list_estimation') simp
  with 2 show ?case by simp
qed

text \<open>A content model for running the model: \<open>(a?, (#PCDATA | b)*)\<close> as a tree.\<close>

definition demo_model :: XML_Content where
  "demo_model =
     XML_Content XML_CTYPE_SEQ XML_CQUANT_NONE None 2
       (Some [XML_Content XML_CTYPE_NAME XML_CQUANT_OPT (Some [CHR ''a'', CHR 0x00]) 0 None,
              XML_Content XML_CTYPE_MIXED XML_CQUANT_REP None 1
                (Some [XML_Content XML_CTYPE_NAME XML_CQUANT_NONE (Some [CHR ''b'', CHR 0x00]) 0 None])])"

section \<open>Properties\<close>

subsection \<open>Helper lemmas\<close>

lemma fail_listed_iff: "fail_listed xs n \<longleftrightarrow> n \<in> set xs"
  by (induction xs) auto

lemma lib_call_trace:
  "lib_call f ev r = Some (x, r') \<Longrightarrow>
     snd r' = snd r @ [ev x] \<and>
     (\<exists>n w. f (fst r) = Some (x, n, w) \<and> fst r' = (fst r)\<lparr>allocation_count := n, world := w\<rparr>)"
  by (auto simp: lib_call_def split: option.splits)

lemma resume_while_result:
  assumes ret: "resume_while L0 p0 s0 r0 = Some y0"
  shows "fst y0 \<noteq> XML_STATUS_SUSPENDED \<and>
     (\<exists>sts. snd (snd y0) = snd r0 @ map (Ev_ResumeParser p0) sts \<and>
            last (s0 # sts) = fst y0 \<and>
            (\<forall>x \<in> set (butlast (s0 # sts)). x = XML_STATUS_SUSPENDED))"
proof (rule resume_while.raw_induct
    [where P = "\<lambda>L p s r y. fst y \<noteq> XML_STATUS_SUSPENDED \<and>
     (\<exists>sts. snd (snd y) = snd r @ map (Ev_ResumeParser p) sts \<and>
            last (s # sts) = fst y \<and>
            (\<forall>x \<in> set (butlast (s # sts)). x = XML_STATUS_SUSPENDED))", OF _ ret], goal_cases)
  case (1 rw L p s r y)
  show ?case
  proof (cases "s = XML_STATUS_SUSPENDED")
    case False
    with 1(2) have "y = (s, r)" by simp
    with False show ?thesis by (intro conjI exI [of _ "[]"]) simp_all
  next
    case True
    with 1(2) obtain s1 r1 where c: "call_ResumeParser L p r = Some (s1, r1)"
      and rec: "rw L p s1 r1 = Some y"
      by (auto split: option.splits)
    from c have tr: "snd r1 = snd r @ [Ev_ResumeParser p s1]"
      by (auto simp: call_ResumeParser_def dest: lib_call_trace)
    from 1(1) [OF rec] obtain sts where
      a: "fst y \<noteq> XML_STATUS_SUSPENDED"
      and b: "snd (snd y) = snd r1 @ map (Ev_ResumeParser p) sts"
      and c': "last (s1 # sts) = fst y"
      and d: "\<forall>x \<in> set (butlast (s1 # sts)). x = XML_STATUS_SUSPENDED"
      by blast
    have "snd (snd y) = snd r @ map (Ev_ResumeParser p) (s1 # sts)"
      using b tr by simp
    moreover have "last (s # s1 # sts) = fst y" using c' by simp
    moreover have "\<forall>x \<in> set (butlast (s # s1 # sts)). x = XML_STATUS_SUSPENDED"
      using d True by simp
    ultimately show ?thesis using a by blast
  qed
qed

lemma resume_while_stop:
  "s \<noteq> XML_STATUS_SUSPENDED \<Longrightarrow> resume_while L p s r = Some (s, r)"
  by (subst resume_while.simps) simp

lemma resume_while_go:
  "resume_while L p XML_STATUS_SUSPENDED r =
     (case call_ResumeParser L p r of
        None \<Rightarrow> None
      | Some (s', r') \<Rightarrow> resume_while L p s' r')"
  by (subst resume_while.simps) simp

lemma resume_while_returns:
  "resumes L p k (fst r) = Some (s', g') \<Longrightarrow> s' \<noteq> XML_STATUS_SUSPENDED \<Longrightarrow>
     resume_while L p XML_STATUS_SUSPENDED r \<noteq> None"
proof (induction k arbitrary: r)
  case 0
  then show ?case
    by (auto simp: resume_while_go call_ResumeParser_def lib_call_def resume_while_stop
        split: option.splits)
next
  case (Suc k)
  from Suc.prems obtain s n w where
    c: "XML_ResumeParser L p (fst r) = Some (s, n, w)"
    and rest: "resumes L p k ((fst r)\<lparr>allocation_count := n, world := w\<rparr>) = Some (s', g')"
    by (auto split: option.splits)
  let ?r1 = "((fst r)\<lparr>allocation_count := n, world := w\<rparr>, snd r @ [Ev_ResumeParser p s])"
  have step: "call_ResumeParser L p r = Some (s, ?r1)"
    using c by (simp add: call_ResumeParser_def lib_call_def)
  show ?case
  proof (cases "s = XML_STATUS_SUSPENDED")
    case True
    from Suc.IH [of ?r1] rest Suc.prems(2)
    have "resume_while L p XML_STATUS_SUSPENDED ?r1 \<noteq> None" by simp
    with step True show ?thesis by (simp add: resume_while_go)
  next
    case False
    with step show ?thesis
      by (simp add: resume_while_go resume_while_stop)
  qed
qed


lemma Parse_result:
  assumes "Parse L parser input input_len is_final r = Some (status, r')"
  shows "status \<noteq> XML_STATUS_SUSPENDED \<and>
     (\<exists>s sts. snd r' = snd r @ Ev_Parse parser input input_len is_final s #
                   map (Ev_ResumeParser parser) sts \<and>
        last (s # sts) = status \<and>
        (\<forall>x \<in> set (butlast (s # sts)). x = XML_STATUS_SUSPENDED))"
proof -
  from assms obtain s r1 where
    c: "call_Parse L parser input input_len is_final r = Some (s, r1)"
    and w: "resume_while L parser s r1 = Some (status, r')"
    by (auto simp: Parse_def split: option.splits)
  from c have tr: "snd r1 = snd r @ [Ev_Parse parser input input_len is_final s]"
    by (auto simp: call_Parse_def dest: lib_call_trace)
  from resume_while_result [OF w] obtain sts where
    a: "status \<noteq> XML_STATUS_SUSPENDED"
    and b: "snd r' = snd r1 @ map (Ev_ResumeParser parser) sts"
    and l: "last (s # sts) = status"
    and d: "\<forall>x \<in> set (butlast (s # sts)). x = XML_STATUS_SUSPENDED"
    unfolding fst_conv snd_conv by blast
  have "snd r' = snd r @ Ev_Parse parser input input_len is_final s #
      map (Ev_ResumeParser parser) sts"
    using b tr by simp
  with a l d show ?thesis by blast
qed

lemma Parse_returns:
  assumes feed: "XML_Parse L parser input input_len is_final (fst r) = Some (s, n, w)"
    and fin: "s \<noteq> XML_STATUS_SUSPENDED \<or>
       (\<exists>k s' g'. resumes L parser k ((fst r)\<lparr>allocation_count := n, world := w\<rparr>) = Some (s', g') \<and>
          s' \<noteq> XML_STATUS_SUSPENDED)"
  shows "Parse L parser input input_len is_final r \<noteq> None"
proof -
  let ?r1 = "((fst r)\<lparr>allocation_count := n, world := w\<rparr>,
              snd r @ [Ev_Parse parser input input_len is_final s])"
  have c: "call_Parse L parser input input_len is_final r = Some (s, ?r1)"
    using feed by (simp add: call_Parse_def lib_call_def)
  show ?thesis
  proof (cases "s = XML_STATUS_SUSPENDED")
    case False
    with c show ?thesis by (simp add: Parse_def resume_while_stop)
  next
    case True
    with fin obtain k s' g' where
      "resumes L parser k (fst ?r1) = Some (s', g')" "s' \<noteq> XML_STATUS_SUSPENDED"
      by auto
    from resume_while_returns [OF this] c True show ?thesis
      by (simp add: Parse_def)
  qed
qed

lemma demo_lib_simps:
  "XML_ParserCreate_MM demo_lib enc sep g = Some (Some 1, allocation_count g, world g)"
  "XML_ExternalEntityParserCreate demo_lib p c enc g = Some (Some 2, allocation_count g, world g)"
  "XML_Parse demo_lib p input n f = demo_Parse input"
  "XML_ResumeParser demo_lib p = demo_Resume"
  "XML_StopParser demo_lib p b = demo_void"
  "XML_ParserReset demo_lib p enc = demo_void"
  "XML_ParserFree demo_lib p = demo_void"
  "XML_FreeContentModel demo_lib p m = demo_void"
  "XML_Set demo_lib p x = demo_void"
  by (simp_all add: demo_lib_def)

lemmas demo_eval =
  Parse_def call_Parse_def call_ResumeParser_def lib_call_def demo_lib_simps demo_Parse_def
  demo_Resume_def demo_void_def demo_globals_def resume_while_go resume_while_stop

lemma touch_terminated_fault: "touch_terminated buf = Inl a \<Longrightarrow> a = MemoryFault"
  by (induction buf) (auto split: if_splits)

lemma touch_counted_fault: "touch_counted buf n = Inl a \<Longrightarrow> a = MemoryFault"
  by (induction buf n rule: touch_counted.induct) auto

lemma TouchString_fault: "TouchString ptr len = Inl a \<Longrightarrow> a = MemoryFault"
  by (auto simp: TouchString_def split: option.splits if_splits
      dest: touch_terminated_fault touch_counted_fault)

lemma touch_Inr:
  "touch ptr len r = Inr r' \<longleftrightarrow>
     TouchString ptr len = Inr () \<and> r' = (fst r, snd r @ [Ev_TouchString ptr len])"
  by (auto simp: touch_def split: sum.splits)

lemma touch_Inl: "touch ptr len r = Inl a \<longleftrightarrow> TouchString ptr len = Inl a"
  by (auto simp: touch_def split: sum.splits)

lemma demo_resumes: "\<exists>g'. resumes demo_lib p (world g) g = Some (XML_STATUS_OK, g')"
proof (induction "world g" arbitrary: g)
  case 0
  then show ?case by (simp add: demo_lib_simps demo_Resume_def)
next
  case (Suc n)
  from Suc(2) have w: "world g = Suc n" by simp
  let ?g1 = "g\<lparr>allocation_count := allocation_count g, world := n\<rparr>"
  from Suc(1) [of ?g1] obtain g' where "resumes demo_lib p n ?g1 = Some (XML_STATUS_OK, g')"
    by auto
  with w show ?case by (simp add: demo_lib_simps demo_Resume_def)
qed

lemma demo_progress: "resume_progress demo_lib"
  unfolding resume_progress_def
proof (intro allI)
  fix p and g :: "nat globals"
  from demo_resumes [of p g] obtain g' where
    "resumes demo_lib p (world g) g = Some (XML_STATUS_OK, g')" ..
  then show "\<exists>k s g'. resumes demo_lib p k g = Some (s, g') \<and> s \<noteq> XML_STATUS_SUSPENDED"
    by blast
qed

lemma demo_returns: "always_returns demo_lib"
  by (simp add: always_returns_def demo_lib_simps demo_Parse_def demo_Resume_def demo_void_def
      split: option.splits)


lemma Parse_progress:
  assumes "resume_progress L"
    and "XML_Parse L parser input input_len is_final (fst r) \<noteq> None"
  shows "\<exists>status r'. Parse L parser input input_len is_final r = Some (status, r')"
proof -
  from assms(2) obtain s n w where
    f: "XML_Parse L parser input input_len is_final (fst r) = Some (s, n, w)" by auto
  from assms(1) obtain k s' g' where
    "resumes L parser k ((fst r)\<lparr>allocation_count := n, world := w\<rparr>) = Some (s', g')"
    "s' \<noteq> XML_STATUS_SUSPENDED"
    unfolding resume_progress_def by blast
  with Parse_returns [OF f] have "Parse L parser input input_len is_final r \<noteq> None" by blast
  then show ?thesis by auto
qed


lemma size_to_int_small: "n < 2 ^ 31 \<Longrightarrow> size_to_int n = int n"
  unfolding size_to_int_def
  by (simp add: signed_of_nat signed_take_bit_int_eq_self)

lemma set_each_trace:
  "set_each L parser xs r = Some r' \<Longrightarrow> snd r' = snd r @ map (Ev_Set parser) xs"
proof (induction xs arbitrary: r)
  case Nil
  then show ?case by simp
next
  case (Cons x xs)
  from Cons.prems obtain r1 where c: "call_Set L parser x r = Some r1"
    and rest: "set_each L parser xs r1 = Some r'"
    by (auto split: option.splits)
  from c have "snd r1 = snd r @ [Ev_Set parser x]"
    by (auto simp: call_Set_def dest!: lib_call_trace)
  with Cons.IH [OF rest] show ?case by simp
qed

lemma InitializeParser_trace:
  "InitializeParser L parser r = Some r' \<Longrightarrow>
     snd r' = snd r @ map (Ev_Set parser) (parser_settings parser)"
  by (simp add: InitializeParser_def set_each_trace)

lemma call_ParserReset_trace:
  "call_ParserReset L parser enc r = Some r' \<Longrightarrow> snd r' = snd r @ [Ev_ParserReset parser enc]"
  by (auto simp: call_ParserReset_def dest!: lib_call_trace)



lemma demo_set_each:
  "set_each demo_lib p xs r = Some (fst r, snd r @ map (Ev_Set p) xs)"
  by (induction xs arbitrary: r)
     (simp_all add: call_Set_def lib_call_def demo_lib_simps demo_void_def)

lemma demo_InitializeParser:
  "InitializeParser demo_lib p r = Some (fst r, snd r @ map (Ev_Set p) (parser_settings p))"
  by (simp add: InitializeParser_def demo_set_each)

lemmas replay_eval = call_ParserReset_def call_ParserCreate_MM_def call_ParserFree_def
  size_to_int_small demo_InitializeParser

lemmas handler_eval =
  ExternalEntityRefHandler_def touch_def TouchString_def call_ExternalEntityParserCreate_def
  call_ParserFree_def size_to_int_small

lemma push_back_all_eq: "push_back_all xs = xs"
proof -
  have "foldl (\<lambda>v x. v @ [x]) acc xs = acc @ xs" for acc :: "int list"
    by (induction xs arbitrary: acc) simp_all
  then show ?thesis by (simp add: push_back_all_def)
qed

lemma Parse_events:
  assumes "Parse L parser input input_len is_final r = Some (status, r')"
  shows "\<exists>es. snd r' = snd r @ es \<and> (\<forall>e \<in> set es. replay_event parser e)"
proof -
  from Parse_result [OF assms] obtain s sts where
    "snd r' = snd r @ Ev_Parse parser input input_len is_final s # map (Ev_ResumeParser parser) sts"
    by blast
  moreover have "\<forall>e \<in> set (Ev_Parse parser input input_len is_final s #
      map (Ev_ResumeParser parser) sts). replay_event parser e"
    by auto
  ultimately show ?thesis by blast
qed

lemma InitializeParser_events:
  assumes "InitializeParser L parser r = Some r'"
  shows "\<exists>es. snd r' = snd r @ es \<and> (\<forall>e \<in> set es. replay_event parser e)"
proof -
  have "\<forall>e \<in> set (map (Ev_Set parser) (parser_settings parser)). replay_event parser e"
    by auto
  with InitializeParser_trace [OF assms] show ?thesis by blast
qed

lemma call_ParserReset_events:
  assumes "call_ParserReset L parser enc r = Some r'"
  shows "\<exists>es. snd r' = snd r @ es \<and> (\<forall>e \<in> set es. replay_event parser e)"
proof -
  have "\<forall>e \<in> set [Ev_ParserReset parser enc]. replay_event parser e" by simp
  with call_ParserReset_trace [OF assms] show ?thesis by blast
qed

lemma events_trans:
  assumes "\<exists>es. snd r1 = snd r @ es \<and> (\<forall>e \<in> set es. replay_event parser e)"
    and "\<exists>es. snd r2 = snd r1 @ es \<and> (\<forall>e \<in> set es. replay_event parser e)"
  shows "\<exists>es. snd r2 = snd r @ es \<and> (\<forall>e \<in> set es. replay_event parser e)"
proof -
  from assms obtain es1 es2 where
    "snd r1 = snd r @ es1" "\<forall>e \<in> set es1. replay_event parser e"
    "snd r2 = snd r1 @ es2" "\<forall>e \<in> set es2. replay_event parser e"
    by blast
  then have "snd r2 = snd r @ (es1 @ es2)" "\<forall>e \<in> set (es1 @ es2). replay_event parser e"
    by auto
  then show ?thesis by blast
qed

lemma events_refl: "\<exists>es. snd r = snd r @ es \<and> (\<forall>e \<in> set es. replay_event parser e)"
  by (rule exI [of _ "[]"]) simp

lemma replay_action_events:
  assumes "replay_action L parser action r = Some r'"
  shows "\<exists>es. snd r' = snd r @ es \<and> (\<forall>e \<in> set es. replay_event parser e)"
proof (cases action)
  case (Chunk data)
  with assms obtain status r1 where
    p: "Parse L parser (Some data) (size_to_int (length data)) 0 r = Some (status, r1)"
    and k: "(if status = XML_STATUS_ERROR
             then call_ParserReset L parser (g_encoding (fst r1)) r1 else Some r1) = Some r'"
    by (auto split: option.splits)
  show ?thesis
  proof (cases "status = XML_STATUS_ERROR")
    case True
    with k have "call_ParserReset L parser (g_encoding (fst r1)) r1 = Some r'" by simp
    from events_trans [OF Parse_events [OF p] call_ParserReset_events [OF this]]
    show ?thesis .
  next
    case False
    with k have "r' = r1" by simp
    with Parse_events [OF p] show ?thesis by simp
  qed
next
  case (LastChunk data)
  with assms obtain status r1 r2 where
    p: "Parse L parser (Some data) (size_to_int (length data)) 1 r = Some (status, r1)"
    and k: "call_ParserReset L parser (g_encoding (fst r1)) r1 = Some r2"
    and i: "InitializeParser L parser r2 = Some r'"
    by (auto split: option.splits)
  from events_trans [OF events_trans [OF Parse_events [OF p] call_ParserReset_events [OF k]]
      InitializeParser_events [OF i]]
  show ?thesis .
next
  case Reset
  with assms obtain r2 where
    k: "call_ParserReset L parser (g_encoding (fst r)) r = Some r2"
    and i: "InitializeParser L parser r2 = Some r'"
    by (auto split: option.splits)
  from events_trans [OF call_ParserReset_events [OF k] InitializeParser_events [OF i]]
  show ?thesis .
next
  case (ExternalEntity data)
  with assms have "snd r' = snd r" by auto
  then show ?thesis by (intro exI [of _ "[]"]) simp
next
  case ACTION_NOT_SET
  with assms have "snd r' = snd r" by auto
  then show ?thesis by (intro exI [of _ "[]"]) simp
qed

lemma replay_events:
  "replay L parser actions r = Some r' \<Longrightarrow>
     \<exists>es. snd r' = snd r @ es \<and> (\<forall>e \<in> set es. replay_event parser e)"
proof (induction actions arbitrary: r)
  case Nil
  then have "r' = r" by simp
  then show ?case using events_refl by simp
next
  case (Cons a as)
  from Cons.prems obtain r1 where a: "replay_action L parser a r = Some r1"
    and rest: "replay L parser as r1 = Some r'"
    by (auto split: option.splits)
  from events_trans [OF replay_action_events [OF a] Cons.IH [OF rest]]
  show ?case .
qed

lemma call_void_returns:
  "f (fst r) \<noteq> None \<Longrightarrow> map_option snd (lib_call f ev r) \<noteq> None"
  by (auto simp: lib_call_def split: option.splits)

lemma set_each_returns:
  "always_returns L \<Longrightarrow> set_each L parser xs r \<noteq> None"
proof (induction xs arbitrary: r)
  case Nil
  then show ?case by simp
next
  case (Cons x xs)
  from Cons.prems have "XML_Set L parser x (fst r) \<noteq> None"
    by (simp add: always_returns_def)
  then have "call_Set L parser x r \<noteq> None"
    unfolding call_Set_def by (rule call_void_returns)
  with Cons.IH [OF Cons.prems] show ?case by (auto split: option.splits)
qed

lemma call_ParserReset_returns:
  "always_returns L \<Longrightarrow> call_ParserReset L parser enc r \<noteq> None"
  unfolding call_ParserReset_def
  by (rule call_void_returns) (simp add: always_returns_def)

lemma call_ParserFree_returns:
  "always_returns L \<Longrightarrow> call_ParserFree L parser r \<noteq> None"
  unfolding call_ParserFree_def
  by (rule call_void_returns) (simp add: always_returns_def)

lemma Parse_always_returns:
  assumes "always_returns L" "resume_progress L"
  shows "Parse L parser input input_len is_final r \<noteq> None"
proof -
  from assms(1) have "XML_Parse L parser input input_len is_final (fst r) \<noteq> None"
    by (simp add: always_returns_def)
  from Parse_progress [OF assms(2) this] show ?thesis by auto
qed

lemma replay_action_returns:
  assumes "always_returns L" "resume_progress L"
  shows "replay_action L parser action r \<noteq> None"
proof (cases action)
  case (Chunk data)
  from Parse_always_returns [OF assms] obtain status r1 where
    "Parse L parser (Some data) (size_to_int (length data)) 0 r = Some (status, r1)"
    by fastforce
  with Chunk call_ParserReset_returns [OF assms(1)] show ?thesis by simp
next
  case (LastChunk data)
  from Parse_always_returns [OF assms] obtain status r1 where
    p: "Parse L parser (Some data) (size_to_int (length data)) 1 r = Some (status, r1)"
    by fastforce
  from call_ParserReset_returns [OF assms(1)] obtain r2 where
    k: "call_ParserReset L parser (g_encoding (fst r1)) r1 = Some r2" by fastforce
  from LastChunk p k set_each_returns [OF assms(1)] show ?thesis
    by (simp add: InitializeParser_def)
next
  case Reset
  from call_ParserReset_returns [OF assms(1)] obtain r2 where
    k: "call_ParserReset L parser (g_encoding (fst r)) r = Some r2" by fastforce
  from Reset k set_each_returns [OF assms(1)] show ?thesis
    by (simp add: InitializeParser_def)
qed simp_all

lemma replay_returns:
  assumes "always_returns L" "resume_progress L"
  shows "replay L parser actions r \<noteq> None"
proof (induction actions arbitrary: r)
  case Nil
  show ?case by simp
next
  case (Cons a as)
  from replay_action_returns [OF assms] obtain r1 where
    "replay_action L parser a r = Some r1" by fastforce
  with Cons.IH show ?case by simp
qed

lemma touch_terminated_ok: "touch_terminated buf = Inr u \<Longrightarrow> CHR 0x00 \<in> set buf"
  by (induction buf) (auto split: if_splits)

lemma TouchString_readable: "TouchString nm (- 1) = Inr u \<Longrightarrow> readable_if_present nm"
  by (auto simp: TouchString_def readable_if_present_def split: option.splits
      dest: touch_terminated_ok)

lemma touch_mixed_children_ok:
  "touch_mixed_children cs n = Inr es \<Longrightarrow>
     n \<le> length cs \<and>
     list_all (\<lambda>c. ctype c = XML_CTYPE_NAME \<and> numchildren c = 0 \<and>
                  readable_if_present (name c)) (take n cs) \<and>
     (\<forall>e \<in> set es. \<exists>p. e = Ev_TouchString p (- 1))"
proof (induction cs n arbitrary: es rule: touch_mixed_children.induct)
  case (1 cs)
  then show ?case by simp
next
  case 2
  then show ?case by simp
next
  case (3 c cs n)
  from "3.prems" obtain es' where
    c: "ctype c = XML_CTYPE_NAME" "numchildren c = 0"
    and t: "TouchString (name c) (- 1) = Inr ()"
    and rest: "touch_mixed_children cs n = Inr es'"
    and es: "es = Ev_TouchString (name c) (- 1) # es'"
    by (auto split: if_splits sum.splits)
  from "3.IH" [OF _ _ _ rest] c t obtain
    "n \<le> length cs"
    "list_all (\<lambda>c. ctype c = XML_CTYPE_NAME \<and> numchildren c = 0 \<and>
                 readable_if_present (name c)) (take n cs)"
    "\<forall>e \<in> set es'. \<exists>p. e = Ev_TouchString p (- 1)"
    by auto
  with c es TouchString_readable [OF t] show ?case by simp
qed

lemma TouchChildNodes_ok:
  "TouchChildNodes c = Inr es \<Longrightarrow>
     shape readable_if_present c \<and> (\<forall>e \<in> set es. \<exists>p. e = Ev_TouchString p (- 1))"
  "touch_children cs n = Inr es \<Longrightarrow>
     n \<le> length cs \<and> list_all (shape readable_if_present) (take n cs) \<and>
     (\<forall>e \<in> set es. \<exists>p. e = Ev_TouchString p (- 1))"
proof (induction c and cs n arbitrary: es and es rule: TouchChildNodes_touch_children.induct)
  case (1 t q nm k chs)
  consider (leaf) "t = XML_CTYPE_EMPTY \<or> t = XML_CTYPE_ANY"
    | (mixed) "t = XML_CTYPE_MIXED"
    | (name) "t = XML_CTYPE_NAME"
    | (group) "t = XML_CTYPE_CHOICE \<or> t = XML_CTYPE_SEQ"
    | (other) "\<exists>n. t = XML_CTYPE_other n"
    by (cases t) auto
  then show ?case
  proof cases
    case leaf
    with "1.prems" show ?thesis by (auto split: if_splits)
  next
    case mixed
    with "1.prems" show ?thesis
      by (auto split: if_splits option.splits dest: touch_mixed_children_ok)
  next
    case name
    with "1.prems" show ?thesis
      by (auto split: if_splits sum.splits dest: TouchString_readable)
  next
    case group
    show ?thesis
    proof (cases chs)
      case None
      with group "1.prems" show ?thesis by (auto split: if_splits)
    next
      case (Some cs)
      with group "1.prems" have nm: "nm = None" and tc: "touch_children cs k = Inr es"
        by (auto split: if_splits)
      from group have g: "\<not> (t = XML_CTYPE_EMPTY \<or> t = XML_CTYPE_ANY)" "t \<noteq> XML_CTYPE_MIXED"
        "t \<noteq> XML_CTYPE_NAME" "t = XML_CTYPE_CHOICE \<or> t = XML_CTYPE_SEQ"
        by auto
      have "\<not> nm \<noteq> None" using nm by simp
      from "1.IH" [OF g this Some tc] Some g show ?thesis by simp
    qed
  next
    case other
    with "1.prems" show ?thesis by auto
  qed
next
  case (2 cs)
  then show ?case by simp
next
  case 3
  then show ?case by simp
next
  case (4 c cs n)
  from "4.prems" obtain es1 es2 where
    a: "TouchChildNodes c = Inr es1" and b: "touch_children cs n = Inr es2"
    and es: "es = es1 @ es2"
    by (auto split: sum.splits)
  from "4.IH"(1) [OF a] "4.IH"(2) [OF a b] es show ?case by auto
qed

lemmas model_eval =
  ElementDeclHandler_def call_FreeContentModel_def touch_def TouchString_def eval_nat_numeral

lemma TestOneProtoInput_calls:
  assumes "tc_actions testcase \<noteq> []"
    and ret: "TestOneProtoInput L testcase r = Some r'"
  shows "\<exists>parser mid.
         snd r' = snd r @
           Ev_ParserCreate_MM (g_encoding (SetEncoding (tc_encoding testcase) (fst r))) ''|'' parser #
           mid @ [Ev_ParserFree parser] \<and>
         (\<forall>e \<in> set mid. replay_event parser e)"
proof -
  let ?g3 = "SetEncoding (tc_encoding testcase)
     ((fst r)\<lparr>external_entity := None, allocation_count := 0,
        fail_allocations := push_back_all (tc_fail_allocations testcase)\<rparr>)"
  let ?enc = "g_encoding (SetEncoding (tc_encoding testcase) (fst r))"
  have enc: "g_encoding ?g3 = ?enc"
    by (simp add: SetEncoding_def split: Encoding.splits)
  from assms obtain parser r1 r2 r3 where
    c: "call_ParserCreate_MM L (g_encoding ?g3) ''|'' (?g3, snd r) = Some (parser, r1)"
    and i: "InitializeParser L parser r1 = Some r2"
    and p: "replay L parser (tc_actions testcase) r2 = Some r3"
    and f: "call_ParserFree L parser r3 = Some r'"
    by (auto simp: TestOneProtoInput_def Let_def split: option.splits)
  from c have t1: "snd r1 = snd r @ [Ev_ParserCreate_MM ?enc ''|'' parser]"
    unfolding enc by (auto simp: call_ParserCreate_MM_def dest!: lib_call_trace)
  from events_trans [OF InitializeParser_events [OF i] replay_events [OF p]]
  obtain mid where t3: "snd r3 = snd r1 @ mid" and m: "\<forall>e \<in> set mid. replay_event parser e"
    by blast
  from f have t4: "snd r' = snd r3 @ [Ev_ParserFree parser]"
    by (auto simp: call_ParserFree_def dest!: lib_call_trace)
  from t1 t3 t4 have "snd r' = snd r @ Ev_ParserCreate_MM ?enc ''|'' parser # mid @ [Ev_ParserFree parser]"
    by simp
  with m show ?thesis by blast
qed

lemma TestOneProtoInput_returns:
  assumes "tc_actions testcase \<noteq> []"
    and ar: "always_returns L" and rp: "resume_progress L"
  shows "TestOneProtoInput L testcase r \<noteq> None"
proof -
  let ?g3 = "SetEncoding (tc_encoding testcase)
     ((fst r)\<lparr>external_entity := None, allocation_count := 0,
        fail_allocations := push_back_all (tc_fail_allocations testcase)\<rparr>)"
  from ar have "XML_ParserCreate_MM L (g_encoding ?g3) ''|'' ?g3 \<noteq> None"
    by (simp add: always_returns_def)
  then obtain parser r1 where
    c: "call_ParserCreate_MM L (g_encoding ?g3) ''|'' (?g3, snd r) = Some (parser, r1)"
    by (auto simp: call_ParserCreate_MM_def lib_call_def split: option.splits)
  from set_each_returns [OF ar] obtain r2 where
    i: "InitializeParser L parser r1 = Some r2"
    by (fastforce simp: InitializeParser_def)
  from replay_returns [OF ar rp] obtain r3 where
    p: "replay L parser (tc_actions testcase) r2 = Some r3" by fastforce
  from call_ParserFree_returns [OF ar] have "call_ParserFree L parser r3 \<noteq> None" .
  with assms(1) c i p show ?thesis
    by (simp add: TestOneProtoInput_def Let_def)
qed

lemma set_each_eq:
  "set_each L parser xs r =
     (case configure L parser xs (fst r) of
        None \<Rightarrow> None
      | Some g' \<Rightarrow> Some (g', snd r @ map (Ev_Set parser) xs))"
proof (induction xs arbitrary: r)
  case Nil
  show ?case by simp
next
  case (Cons x xs)
  show ?case
  proof (cases "XML_Set L parser x (fst r)")
    case None
    then show ?thesis by (simp add: call_Set_def lib_call_def)
  next
    case (Some y)
    obtain u n w where y: "y = (u, n, w)" by (cases y)
    let ?r1 = "((fst r)\<lparr>allocation_count := n, world := w\<rparr>, snd r @ [Ev_Set parser x])"
    from Some y have "call_Set L parser x r = Some ?r1"
      by (simp add: call_Set_def lib_call_def)
    with Some y Cons.IH [of ?r1] show ?thesis
      by (simp split: option.splits)
  qed
qed

lemma InitializeParser_eq:
  "InitializeParser L parser r =
     (case configure L parser (parser_settings parser) (fst r) of
        None \<Rightarrow> None
      | Some g' \<Rightarrow> Some (g', snd r @ map (Ev_Set parser) (parser_settings parser)))"
  by (simp add: InitializeParser_def set_each_eq)

lemma call_ParserReset_eq:
  "call_ParserReset L parser enc r =
     (case XML_ParserReset L parser enc (fst r) of
        None \<Rightarrow> None
      | Some (u, n, w) \<Rightarrow>
          Some ((fst r)\<lparr>allocation_count := n, world := w\<rparr>, snd r @ [Ev_ParserReset parser enc]))"
  by (simp add: call_ParserReset_def lib_call_def split: option.splits)

lemma call_ParserFree_eq:
  "call_ParserFree L parser r =
     (case XML_ParserFree L parser (fst r) of
        None \<Rightarrow> None
      | Some (u, n, w) \<Rightarrow>
          Some ((fst r)\<lparr>allocation_count := n, world := w\<rparr>, snd r @ [Ev_ParserFree parser]))"
  by (simp add: call_ParserFree_def lib_call_def split: option.splits)

lemma TouchString_cases:
  "TouchString ptr len = Inl MemoryFault \<or> TouchString ptr len = Inr ()"
proof (cases "TouchString ptr len")
  case (Inl a)
  with TouchString_fault [OF Inl] show ?thesis by simp
next
  case (Inr u)
  then show ?thesis by simp
qed

lemma CommentHandler_eq:
  "CommentHandler L userData data r =
     (case TouchString data (- 1) of
        Inl a \<Rightarrow> Some (Inl MemoryFault)
      | Inr u \<Rightarrow>
          (case XML_StopParser L userData True (fst r) of
             None \<Rightarrow> None
           | Some (v, n, w) \<Rightarrow>
               Some (Inr ((fst r)\<lparr>allocation_count := n, world := w\<rparr>,
                          snd r @ [Ev_TouchString data (- 1), Ev_StopParser userData True]))))"
  using TouchString_cases [of data "- 1"]
  by (auto simp: CommentHandler_def touch_def call_StopParser_def lib_call_def
      split: option.splits)

lemma ElementDeclHandler_eq:
  "ElementDeclHandler L userData nm model r =
     (case TouchString nm (- 1) of
        Inl a \<Rightarrow> Some (Inl MemoryFault)
      | Inr u \<Rightarrow>
          (case TouchChildNodes model of
             Inl a \<Rightarrow> Some (Inl a)
           | Inr es \<Rightarrow>
               (case XML_FreeContentModel L userData model (fst r) of
                  None \<Rightarrow> None
                | Some (v, n, w) \<Rightarrow>
                    Some (Inr ((fst r)\<lparr>allocation_count := n, world := w\<rparr>,
                      snd r @ Ev_TouchString nm (- 1) # es @
                        [Ev_FreeContentModel userData model])))))"
  using TouchString_cases [of nm "- 1"]
  by (auto simp: ElementDeclHandler_def touch_def call_FreeContentModel_def lib_call_def
      split: option.splits sum.splits)




lemma ExternalEntityRefHandler_eq:
  "ExternalEntityRefHandler L parser context base systemId publicId r =
     (if TouchString context (- 1) = Inr () \<and> TouchString base (- 1) = Inr () \<and>
         TouchString systemId (- 1) = Inr () \<and> TouchString publicId (- 1) = Inr ()
      then
        (case external_entity (fst r) of
           None \<Rightarrow>
             Some (Inr (XML_STATUS_ERROR,
               (fst r, snd r @ [Ev_TouchString context (- 1), Ev_TouchString base (- 1),
                                Ev_TouchString systemId (- 1), Ev_TouchString publicId (- 1)])))
         | Some buf \<Rightarrow>
             (case XML_ExternalEntityParserCreate L parser context (g_encoding (fst r)) (fst r) of
                None \<Rightarrow> None
              | Some (ext_parser, n, w) \<Rightarrow>
                  (case Parse L ext_parser (Some buf)
                          (size_to_int (external_entity_size (fst r))) 1
                          ((fst r)\<lparr>allocation_count := n, world := w\<rparr>,
                           snd r @ [Ev_TouchString context (- 1), Ev_TouchString base (- 1),
                                    Ev_TouchString systemId (- 1), Ev_TouchString publicId (- 1),
                                    Ev_ExternalEntityParserCreate parser context
                                      (g_encoding (fst r)) ext_parser]) of
                     None \<Rightarrow> None
                   | Some (status, r6) \<Rightarrow>
                       (case XML_ParserFree L ext_parser (fst r6) of
                          None \<Rightarrow> None
                        | Some (u, n', w') \<Rightarrow>
                            Some (Inr (status,
                              ((fst r6)\<lparr>allocation_count := n', world := w'\<rparr>,
                               snd r6 @ [Ev_ParserFree ext_parser])))))))
      else Some (Inl MemoryFault))"
  using TouchString_cases [of "context" "- 1"] TouchString_cases [of base "- 1"]
    TouchString_cases [of systemId "- 1"] TouchString_cases [of publicId "- 1"]
  by (auto simp: ExternalEntityRefHandler_def touch_def call_ExternalEntityParserCreate_def
      lib_call_def call_ParserFree_eq split: option.splits)

lemma TestOneProtoInput_eq:
  assumes "tc_actions testcase \<noteq> []"
  shows "TestOneProtoInput L testcase r =
     (let g3 = SetEncoding (tc_encoding testcase)
                 ((fst r)\<lparr>external_entity := None, allocation_count := 0,
                    fail_allocations := tc_fail_allocations testcase\<rparr>)
      in
        (case XML_ParserCreate_MM L (g_encoding g3) ''|'' g3 of
           None \<Rightarrow> None
         | Some (parser, n, w) \<Rightarrow>
             (case InitializeParser L parser
                     (g3\<lparr>allocation_count := n, world := w\<rparr>,
                      snd r @ [Ev_ParserCreate_MM (g_encoding g3) ''|'' parser]) of
                None \<Rightarrow> None
              | Some r2 \<Rightarrow>
                  (case replay L parser (tc_actions testcase) r2 of
                     None \<Rightarrow> None
                   | Some r3 \<Rightarrow>
                       (case XML_ParserFree L parser (fst r3) of
                          None \<Rightarrow> None
                        | Some (u, n', w') \<Rightarrow>
                            Some ((fst r3)\<lparr>allocation_count := n', world := w'\<rparr>,
                                  snd r3 @ [Ev_ParserFree parser]))))))"
  using assms
  by (simp add: TestOneProtoInput_def Let_def push_back_all_eq call_ParserCreate_MM_def
      lib_call_def call_ParserFree_eq split: option.splits)

lemma track_lib_simps:
  "XML_ParserCreate_MM track_lib enc sep = track_create"
  "XML_ExternalEntityParserCreate track_lib p c enc g =
     (if p = None then track_same g None else track_create g)"
  "XML_Parse track_lib p input n f = track_Parse p input"
  "XML_ResumeParser track_lib = track_Resume"
  "XML_StopParser track_lib = XML_StopParser track_core"
  "XML_ParserReset track_lib = XML_ParserReset track_core"
  "XML_ParserFree track_lib p g =
     (if p = None then track_same g ()
      else Some ((), allocation_count g,
             (world g)\<lparr>parsers_freed := Suc (parsers_freed (world g))\<rparr>))"
  "XML_FreeContentModel track_lib p m g =
     (if p = None then track_same g ()
      else Some ((), allocation_count g,
             (world g)\<lparr>models_freed := Suc (models_freed (world g))\<rparr>))"
  "XML_Set track_lib = XML_Set track_core"
  by (simp_all add: track_lib_def track_core_def)

lemma track_core_simps:
  "XML_StopParser track_core p b g =
     (if p = None then track_same g ()
      else Some ((), allocation_count g,
             (world g)\<lparr>parsing_suspended := True,
                       stop_requests := Suc (stop_requests (world g))\<rparr>))"
  "XML_ParserReset track_core p enc g =
     (if p = None then track_same g ()
      else Some ((), allocation_count g,
             (world g)\<lparr>comment_handler := False, parsing_suspended := False,
                       comments_left := 0\<rparr>))"
  "XML_Set track_core p x g =
     (if p = None then track_same g ()
      else (case x of
              SetCommentHandler h \<Rightarrow>
                Some ((), allocation_count g, (world g)\<lparr>comment_handler := True\<rparr>)
            | _ \<Rightarrow> track_same g ()))"
  by (simp_all add: track_core_def)

lemmas track_eval =
  track_lib_simps track_core_simps track_same_def track_create_def track_Parse_def
  track_Resume_def track_libc_def track_globals_def MallocHook_def parser_settings_def
  CommentHandler_eq TouchString_def Parse_def call_Parse_def call_ResumeParser_def
  lib_call_def resume_while_go resume_while_stop size_to_int_small

lemmas track_run =
  TestOneProtoInput_eq InitializeParser_eq call_ParserReset_eq SetEncoding_def track_eval

lemma ExternalEntityRefHandler_frees:
  assumes ret: "ExternalEntityRefHandler L parser context base systemId publicId r = Some (Inr (rc, r'))"
  shows "\<exists>es. snd r' = snd r @ es \<and>
     (\<forall>q. Ev_ParserFree q \<in> set es \<longrightarrow>
        Ev_ExternalEntityParserCreate parser context (g_encoding (fst r)) q \<in> set es) \<and>
     (\<forall>enc sep q. Ev_ParserCreate_MM enc sep q \<notin> set es)"
proof (cases "external_entity (fst r)")
  case None
  with ret have "snd r' = snd r @ [Ev_TouchString context (- 1), Ev_TouchString base (- 1),
      Ev_TouchString systemId (- 1), Ev_TouchString publicId (- 1)]"
    by (auto simp: ExternalEntityRefHandler_eq split: if_splits)
  then show ?thesis by auto
next
  case (Some buf)
  let ?pre = "[Ev_TouchString context (- 1), Ev_TouchString base (- 1),
      Ev_TouchString systemId (- 1), Ev_TouchString publicId (- 1)]"
  from ret Some obtain ext_parser n w r6 where
    p: "Parse L ext_parser (Some buf) (size_to_int (external_entity_size (fst r))) 1
          ((fst r)\<lparr>allocation_count := n, world := w\<rparr>,
           snd r @ [Ev_TouchString context (- 1), Ev_TouchString base (- 1),
              Ev_TouchString systemId (- 1), Ev_TouchString publicId (- 1),
              Ev_ExternalEntityParserCreate parser context (g_encoding (fst r)) ext_parser])
        = Some (rc, r6)"
    and tr: "snd r' = snd r6 @ [Ev_ParserFree ext_parser]"
    by (auto simp: ExternalEntityRefHandler_eq split: if_splits option.splits)
  from Parse_result [OF p] obtain s sts where
    r6: "snd r6 = (snd r @ [Ev_TouchString context (- 1), Ev_TouchString base (- 1),
              Ev_TouchString systemId (- 1), Ev_TouchString publicId (- 1),
              Ev_ExternalEntityParserCreate parser context (g_encoding (fst r)) ext_parser]) @
            Ev_Parse ext_parser (Some buf) (size_to_int (external_entity_size (fst r))) 1 s #
            map (Ev_ResumeParser ext_parser) sts"
    unfolding snd_conv by blast
  let ?es = "?pre @ [Ev_ExternalEntityParserCreate parser context (g_encoding (fst r)) ext_parser] @
     Ev_Parse ext_parser (Some buf) (size_to_int (external_entity_size (fst r))) 1 s #
     map (Ev_ResumeParser ext_parser) sts @ [Ev_ParserFree ext_parser]"
  from tr r6 have "snd r' = snd r @ ?es" by simp
  moreover have "\<forall>q. Ev_ParserFree q \<in> set ?es \<longrightarrow>
        Ev_ExternalEntityParserCreate parser context (g_encoding (fst r)) q \<in> set ?es"
    by auto
  moreover have "\<forall>enc sep q. Ev_ParserCreate_MM enc sep q \<notin> set ?es" by auto
  ultimately show ?thesis by blast
qed

subsection \<open>The encoding table\<close>

text \<open>
  C7. \<open>SetEncoding\<close> sets the encoding name to \<open>UTF-8\<close>, \<open>UTF-16\<close>, \<open>ISO-8859-1\<close>,
  \<open>US-ASCII\<close> for the four named encodings, to the null pointer (no hint) for \<open>NONE\<close>, and
  to \<open>UNKNOWN\<close> for every value that is none of the five. For a test case with at least
  one action, the first call the entry function makes is the construction of the
  parser, and it is given the name so set for the encoding of the test case.
\<close>

theorem SetEncoding_table:
  "g_encoding (SetEncoding UTF8 g) = Some ''UTF-8'' \<and>
   g_encoding (SetEncoding UTF16 g) = Some ''UTF-16'' \<and>
   g_encoding (SetEncoding ISO88591 g) = Some ''ISO-8859-1'' \<and>
   g_encoding (SetEncoding ASCII g) = Some ''US-ASCII'' \<and>
   g_encoding (SetEncoding NONE g) = None \<and>
   g_encoding (SetEncoding (Unrecognized n) g) = Some ''UNKNOWN'' \<and>
   (tc_actions testcase \<noteq> [] \<longrightarrow> TestOneProtoInput L testcase (g, tr) = Some r' \<longrightarrow>
      (\<exists>parser rest.
         snd r' = tr @ Ev_ParserCreate_MM (g_encoding (SetEncoding (tc_encoding testcase) g)) ''|''
                         parser # rest))"
proof -
  have "\<exists>parser rest.
         snd r' = tr @ Ev_ParserCreate_MM (g_encoding (SetEncoding (tc_encoding testcase) g)) ''|''
                         parser # rest"
    if "tc_actions testcase \<noteq> []" "TestOneProtoInput L testcase (g, tr) = Some r'"
    using TestOneProtoInput_calls [OF that] by auto
  then show ?thesis by (simp add: SetEncoding_def)
qed

theorem SetEncoding_table_witness:
  "TestOneProtoInput demo_lib
     \<lparr>tc_encoding = ISO88591, tc_fail_allocations = [3], tc_actions = [Reset]\<rparr>
     (demo_globals 0 [], []) =
   Some ((demo_globals 0 [3])\<lparr>g_encoding := Some ''ISO-8859-1''\<rparr>,
     [] @ Ev_ParserCreate_MM (Some ''ISO-8859-1'') ''|'' (Some 1) #
     (map (Ev_Set (Some 1)) (parser_settings (Some 1)) @
      Ev_ParserReset (Some 1) (Some ''ISO-8859-1'') #
      map (Ev_Set (Some 1)) (parser_settings (Some 1)) @ [Ev_ParserFree (Some 1)]))"
  using SetEncoding_table
    [of "demo_globals 0 []" _
        "\<lparr>tc_encoding = ISO88591, tc_fail_allocations = [3], tc_actions = [Reset]\<rparr>"
        demo_lib "[]"]
  by (simp add: TestOneProtoInput_def SetEncoding_def push_back_all_eq replay_eval demo_eval)

subsection \<open>The allocation hooks\<close>

text \<open>
  C1, as amended. A call of \<open>MallocHook\<close> or \<open>ReallocHook\<close> made while the value of the
  counter is in the fail-list returns the null pointer and leaves the whole state as it
  was (the counter is not incremented, the allocator is not called). A call made while
  the value of the counter is not in the fail-list increments the counter and returns what
  the allocator returns.
\<close>

theorem hook_by_counter:
  "(allocation_count g \<in> set (fail_allocations g) \<longrightarrow>
      MallocHook c sz g = (None, g) \<and> ReallocHook c p sz g = (None, g)) \<and>
   (allocation_count g \<notin> set (fail_allocations g) \<longrightarrow>
      MallocHook c sz g =
        (fst (malloc c sz (world g)),
         g\<lparr>allocation_count := allocation_count g + 1, world := snd (malloc c sz (world g))\<rparr>) \<and>
      ReallocHook c p sz g =
        (fst (realloc c p sz (world g)),
         g\<lparr>allocation_count := allocation_count g + 1,
           world := snd (realloc c p sz (world g))\<rparr>))"
  by (simp add: MallocHook_def ReallocHook_def fail_listed_iff split: prod.split)

theorem hook_by_counter_witness:
  "MallocHook demo_libc 8 (demo_globals 3 [5, 3]) = (None, demo_globals 3 [5, 3]) \<and>
   ReallocHook demo_libc (Some 1) 8 (demo_globals 3 [5, 3]) = (None, demo_globals 3 [5, 3]) \<and>
   MallocHook demo_libc 8 (demo_globals 2 [5, 3]) = (Some 1, (demo_globals 3 [5, 3])\<lparr>world := 1\<rparr>) \<and>
   ReallocHook demo_libc (Some 1) 8 (demo_globals 2 [5, 3]) = (Some 1, (demo_globals 3 [5, 3])\<lparr>world := 1\<rparr>)"
  using hook_by_counter [of "demo_globals 3 [5, 3]" demo_libc 8 "Some 1"]
        hook_by_counter [of "demo_globals 2 [5, 3]" demo_libc 8 "Some 1"]
  by (simp add: demo_globals_def demo_libc_def)

text \<open>
  C1 as stated fails. With the fail-list \<open>[0]\<close>, not only the first allocation of the test
  case is forced to fail: the second and the third calls are too. With the fail-list
  \<open>[2, 0]\<close>, which contains the index 2, the call made while the counter is 0 fails, and
  the counter never reaches 2. The stand-in allocator never returns the null pointer, so
  each null pointer below is a forced failure.
\<close>

theorem later_allocation_fails_counterexample:
  "run_hooks demo_libc [Malloc 8, Malloc 8, Realloc (Some 1) 16] (demo_globals 0 [0]) =
     ([Returned None, Returned None, Returned None], demo_globals 0 [0]) \<and>
   run_hooks demo_libc [Malloc 8, Malloc 8, Malloc 8] (demo_globals 0 [2, 0]) =
     ([Returned None, Returned None, Returned None], demo_globals 0 [2, 0])"
  by (simp add: MallocHook_def ReallocHook_def demo_globals_def)

text \<open>
  C2. Once the value of the counter is in the fail-list, every later call of the allocate
  and reallocate hooks returns the null pointer, whatever the calls are, and the counter
  and the fail-list stay as they are.
\<close>

theorem counter_stuck:
  assumes "allocation_count g \<in> set (fail_allocations g)"
  shows "fst (run_hooks c calls g) =
           map (\<lambda>x. case x of Free p \<Rightarrow> Freed | _ \<Rightarrow> Returned None) calls \<and>
         allocation_count (snd (run_hooks c calls g)) = allocation_count g \<and>
         fail_allocations (snd (run_hooks c calls g)) = fail_allocations g"
  using assms
proof (induction calls arbitrary: g)
  case Nil
  then show ?case by simp
next
  case (Cons x xs)
  obtain r g1 where s: "run_hook c x g = (r, g1)" by (cases "run_hook c x g")
  from Cons.prems s have g1: "allocation_count g1 = allocation_count g"
    "fail_allocations g1 = fail_allocations g"
    "r = (case x of Free p \<Rightarrow> Freed | _ \<Rightarrow> Returned None)"
    by (cases x; auto simp: MallocHook_def ReallocHook_def FreeHook_def fail_listed_iff)+
  with Cons.prems have "allocation_count g1 \<in> set (fail_allocations g1)" by simp
  from Cons.IH [OF this] s g1 show ?case
    by (cases "run_hooks c xs g1") simp
qed

theorem counter_stuck_witness:
  "fst (run_hooks demo_libc [Malloc 4, Free (Some 1), Realloc None 9, Malloc 1] (demo_globals 3 [5, 3])) =
     [Returned None, Freed, Returned None, Returned None] \<and>
   allocation_count (snd (run_hooks demo_libc [Malloc 4, Free (Some 1), Realloc None 9, Malloc 1]
      (demo_globals 3 [5, 3]))) = 3"
  using counter_stuck [of "demo_globals 3 [5, 3]" demo_libc "[Malloc 4, Free (Some 1), Realloc None 9, Malloc 1]"]
  by (simp add: demo_globals_def)

subsection \<open>The feed wrapper\<close>

text \<open>
  C3. Whenever \<open>Parse\<close> returns, the status it returns is not the suspended one, and what
  it did is one call of \<open>XML_Parse\<close> followed by calls of \<open>XML_ResumeParser\<close> only, one after
  each suspended status and none after another status. It returns whenever the call of
  \<open>XML_Parse\<close> comes back and either reports a status other than suspended, or some finite
  row of calls of \<open>XML_ResumeParser\<close> after it ends with a status other than suspended.
\<close>

theorem Parse_never_suspended:
  "(\<forall>status r'. Parse L parser input input_len is_final r = Some (status, r') \<longrightarrow>
      status \<noteq> XML_STATUS_SUSPENDED \<and>
      (\<exists>s sts. snd r' = snd r @ Ev_Parse parser input input_len is_final s #
                    map (Ev_ResumeParser parser) sts \<and>
         last (s # sts) = status \<and>
         (\<forall>x \<in> set (butlast (s # sts)). x = XML_STATUS_SUSPENDED))) \<and>
   (\<forall>s n w. XML_Parse L parser input input_len is_final (fst r) = Some (s, n, w) \<longrightarrow>
      (s \<noteq> XML_STATUS_SUSPENDED \<or>
       (\<exists>k s' g'. resumes L parser k ((fst r)\<lparr>allocation_count := n, world := w\<rparr>) = Some (s', g') \<and>
          s' \<noteq> XML_STATUS_SUSPENDED)) \<longrightarrow>
      Parse L parser input input_len is_final r \<noteq> None)"
proof (intro conjI allI impI)
  fix status r'
  assume "Parse L parser input input_len is_final r = Some (status, r')"
  from Parse_result [OF this]
  show "status \<noteq> XML_STATUS_SUSPENDED"
    and "\<exists>s sts. snd r' = snd r @ Ev_Parse parser input input_len is_final s #
                    map (Ev_ResumeParser parser) sts \<and>
         last (s # sts) = status \<and>
         (\<forall>x \<in> set (butlast (s # sts)). x = XML_STATUS_SUSPENDED)"
    by blast+
next
  fix s n w
  assume "XML_Parse L parser input input_len is_final (fst r) = Some (s, n, w)"
    and "s \<noteq> XML_STATUS_SUSPENDED \<or>
       (\<exists>k s' g'. resumes L parser k ((fst r)\<lparr>allocation_count := n, world := w\<rparr>) = Some (s', g') \<and>
          s' \<noteq> XML_STATUS_SUSPENDED)"
  then show "Parse L parser input input_len is_final r \<noteq> None"
    by (rule Parse_returns)
qed

theorem Parse_never_suspended_witness:
  "Parse demo_lib (Some 1) (Some ''<a><!-- --><!-- --></a>'') 24 0 (demo_globals 0 [], []) =
     Some (XML_STATUS_OK, (demo_globals 0 [],
       [Ev_Parse (Some 1) (Some ''<a><!-- --><!-- --></a>'') 24 0 XML_STATUS_SUSPENDED,
        Ev_ResumeParser (Some 1) XML_STATUS_SUSPENDED,
        Ev_ResumeParser (Some 1) XML_STATUS_OK])) \<and>
   XML_STATUS_OK \<noteq> XML_STATUS_SUSPENDED"
  using Parse_never_suspended [of demo_lib "Some 1" "Some ''<a><!-- --><!-- --></a>''" 24 0
      "(demo_globals 0 [], [])"]
  by (simp add: demo_eval)





subsection \<open>The external-entity-reference callback\<close>

text \<open>
  C4, as amended. The callback ends the process when one of its four reads runs outside
  its region. Otherwise, with no pending buffer it returns the ERROR status in the state
  it was called in, having made no call into the library. With a pending buffer it calls
  the construction of a nested parser with its parser, the context and \<open>g_encoding\<close>;
  whatever handle comes back, null or not, it runs \<open>Parse\<close> on that handle with the
  pending buffer, its size and the final flag 1, then calls \<open>XML_ParserFree\<close> on the
  handle, and returns the status of that \<open>Parse\<close> in the state the free left; it does not
  return when one of these calls does not. The status it returns is never the suspended
  one.
\<close>

theorem ExternalEntityRefHandler_behaviour:
  "ExternalEntityRefHandler L parser context base systemId publicId r =
     (if TouchString context (- 1) = Inr () \<and> TouchString base (- 1) = Inr () \<and>
         TouchString systemId (- 1) = Inr () \<and> TouchString publicId (- 1) = Inr ()
      then
        (case external_entity (fst r) of
           None \<Rightarrow>
             Some (Inr (XML_STATUS_ERROR,
               (fst r, snd r @ [Ev_TouchString context (- 1), Ev_TouchString base (- 1),
                                Ev_TouchString systemId (- 1), Ev_TouchString publicId (- 1)])))
         | Some buf \<Rightarrow>
             (case XML_ExternalEntityParserCreate L parser context (g_encoding (fst r)) (fst r) of
                None \<Rightarrow> None
              | Some (ext_parser, n, w) \<Rightarrow>
                  (case Parse L ext_parser (Some buf)
                          (size_to_int (external_entity_size (fst r))) 1
                          ((fst r)\<lparr>allocation_count := n, world := w\<rparr>,
                           snd r @ [Ev_TouchString context (- 1), Ev_TouchString base (- 1),
                                    Ev_TouchString systemId (- 1), Ev_TouchString publicId (- 1),
                                    Ev_ExternalEntityParserCreate parser context
                                      (g_encoding (fst r)) ext_parser]) of
                     None \<Rightarrow> None
                   | Some (status, r6) \<Rightarrow>
                       (case XML_ParserFree L ext_parser (fst r6) of
                          None \<Rightarrow> None
                        | Some (u, n', w') \<Rightarrow>
                            Some (Inr (status,
                              ((fst r6)\<lparr>allocation_count := n', world := w'\<rparr>,
                               snd r6 @ [Ev_ParserFree ext_parser])))))))
      else Some (Inl MemoryFault)) \<and>
   (ExternalEntityRefHandler L parser context base systemId publicId r = Some (Inr (rc, r')) \<longrightarrow>
      rc \<noteq> XML_STATUS_SUSPENDED)"
proof (intro conjI impI)
  show "ExternalEntityRefHandler L parser context base systemId publicId r =
     (if TouchString context (- 1) = Inr () \<and> TouchString base (- 1) = Inr () \<and>
         TouchString systemId (- 1) = Inr () \<and> TouchString publicId (- 1) = Inr ()
      then
        (case external_entity (fst r) of
           None \<Rightarrow>
             Some (Inr (XML_STATUS_ERROR,
               (fst r, snd r @ [Ev_TouchString context (- 1), Ev_TouchString base (- 1),
                                Ev_TouchString systemId (- 1), Ev_TouchString publicId (- 1)])))
         | Some buf \<Rightarrow>
             (case XML_ExternalEntityParserCreate L parser context (g_encoding (fst r)) (fst r) of
                None \<Rightarrow> None
              | Some (ext_parser, n, w) \<Rightarrow>
                  (case Parse L ext_parser (Some buf)
                          (size_to_int (external_entity_size (fst r))) 1
                          ((fst r)\<lparr>allocation_count := n, world := w\<rparr>,
                           snd r @ [Ev_TouchString context (- 1), Ev_TouchString base (- 1),
                                    Ev_TouchString systemId (- 1), Ev_TouchString publicId (- 1),
                                    Ev_ExternalEntityParserCreate parser context
                                      (g_encoding (fst r)) ext_parser]) of
                     None \<Rightarrow> None
                   | Some (status, r6) \<Rightarrow>
                       (case XML_ParserFree L ext_parser (fst r6) of
                          None \<Rightarrow> None
                        | Some (u, n', w') \<Rightarrow>
                            Some (Inr (status,
                              ((fst r6)\<lparr>allocation_count := n', world := w'\<rparr>,
                               snd r6 @ [Ev_ParserFree ext_parser])))))))
      else Some (Inl MemoryFault))"
    by (rule ExternalEntityRefHandler_eq)
next
  assume ret: "ExternalEntityRefHandler L parser context base systemId publicId r = Some (Inr (rc, r'))"
  show "rc \<noteq> XML_STATUS_SUSPENDED"
  proof (cases "external_entity (fst r)")
    case None
    with ret show ?thesis
      by (auto simp: ExternalEntityRefHandler_eq split: if_splits)
  next
    case (Some buf)
    with ret obtain ext_parser r5 r6 where
      "Parse L ext_parser (Some buf) (size_to_int (external_entity_size (fst r))) 1 r5 = Some (rc, r6)"
      by (auto simp: ExternalEntityRefHandler_eq split: if_splits option.splits)
    from Parse_result [OF this] show ?thesis by blast
  qed
qed

theorem ExternalEntityRefHandler_behaviour_witness:
  "ExternalEntityRefHandler track_lib (Some 1) (Some [CHR ''c'', CHR 0x00]) None None None
     (track_registered, []) =
     Some (Inr (XML_STATUS_ERROR, (track_registered,
       [Ev_TouchString (Some [CHR ''c'', CHR 0x00]) (- 1), Ev_TouchString None (- 1),
        Ev_TouchString None (- 1), Ev_TouchString None (- 1)]))) \<and>
   ExternalEntityRefHandler track_lib (Some 1) (Some [CHR ''c'', CHR 0x00]) None None None
     (track_registered\<lparr>g_encoding := Some ''UTF-8'', external_entity := Some ''<e/>'',
        external_entity_size := 4\<rparr>, []) =
     Some (Inr (XML_STATUS_OK,
       (track_registered\<lparr>g_encoding := Some ''UTF-8'', external_entity := Some ''<e/>'',
          external_entity_size := 4, allocation_count := 2,
          world := (world track_registered)\<lparr>heap := 2, parsers_freed := 1\<rparr>\<rparr>,
       [Ev_TouchString (Some [CHR ''c'', CHR 0x00]) (- 1), Ev_TouchString None (- 1),
        Ev_TouchString None (- 1), Ev_TouchString None (- 1),
        Ev_ExternalEntityParserCreate (Some 1) (Some [CHR ''c'', CHR 0x00]) (Some ''UTF-8'') (Some 2),
        Ev_Parse (Some 2) (Some ''<e/>'') 4 1 XML_STATUS_OK,
        Ev_ParserFree (Some 2)]))) \<and>
   ExternalEntityRefHandler track_lib (Some 1) (Some ''c'') None None None
     (track_registered, []) = Some (Inl MemoryFault)"
  using ExternalEntityRefHandler_behaviour
          [of track_lib "Some 1" "Some [CHR ''c'', CHR 0x00]" None None None "(track_registered, [])"]
        ExternalEntityRefHandler_behaviour
          [of track_lib "Some 1" "Some [CHR ''c'', CHR 0x00]" None None None
              "(track_registered\<lparr>g_encoding := Some ''UTF-8'', external_entity := Some ''<e/>'',
                  external_entity_size := 4\<rparr>, [])"]
        ExternalEntityRefHandler_behaviour
          [of track_lib "Some 1" "Some ''c''" None None None "(track_registered, [])"]
  by (simp add: track_registered_def track_eval)

text \<open>
  C4 as stated fails: with a pending buffer the callback does not always construct a
  nested parser. On the library that allocates through the hooks, with the counter in
  the fail-list the construction returns the null pointer; the callback does not test
  it, feeds the buffer to the null parser, frees the null parser and returns the status
  of that feed.
\<close>

theorem nested_construction_fails_counterexample:
  "ExternalEntityRefHandler track_lib (Some 1) (Some [CHR ''c'', CHR 0x00]) None None None
     (track_globals\<lparr>external_entity := Some ''<e/>'', external_entity_size := 4,
        fail_allocations := [0]\<rparr>, []) =
   Some (Inr (XML_STATUS_ERROR,
     (track_globals\<lparr>external_entity := Some ''<e/>'', external_entity_size := 4,
        fail_allocations := [0]\<rparr>,
      [Ev_TouchString (Some [CHR ''c'', CHR 0x00]) (- 1), Ev_TouchString None (- 1),
       Ev_TouchString None (- 1), Ev_TouchString None (- 1),
       Ev_ExternalEntityParserCreate (Some 1) (Some [CHR ''c'', CHR 0x00]) None None,
       Ev_Parse None (Some ''<e/>'') 4 1 XML_STATUS_ERROR,
       Ev_ParserFree None])))"
  by (simp add: ExternalEntityRefHandler_eq track_eval)

subsection \<open>The replay of the actions\<close>



text \<open>
  C8. For a test case with no actions the entry function returns at once: it makes no
  call into the library (the record of calls is as before), and of the state only the
  pending external-entity pointer is written (it is set to null); the allocation
  counter, the fail-list and the world are as before.
\<close>

theorem no_actions_no_work:
  assumes "tc_actions testcase = []"
  shows "TestOneProtoInput L testcase r = Some ((fst r)\<lparr>external_entity := None\<rparr>, snd r) \<and>
         allocation_count ((fst r)\<lparr>external_entity := None\<rparr>) = allocation_count (fst r) \<and>
         fail_allocations ((fst r)\<lparr>external_entity := None\<rparr>) = fail_allocations (fst r) \<and>
         world ((fst r)\<lparr>external_entity := None\<rparr>) = world (fst r)"
  using assms by (simp add: TestOneProtoInput_def)

theorem no_actions_no_work_witness:
  "TestOneProtoInput demo_lib \<lparr>tc_encoding = UTF16, tc_fail_allocations = [1, 2], tc_actions = []\<rparr>
     ((demo_globals 7 [3])\<lparr>external_entity := Some ''old''\<rparr>, []) =
     Some (demo_globals 7 [3], [])"
  using no_actions_no_work
    [of "\<lparr>tc_encoding = UTF16, tc_fail_allocations = [1, 2], tc_actions = []\<rparr>" demo_lib
        "((demo_globals 7 [3])\<lparr>external_entity := Some ''old''\<rparr>, [])"]
  by (simp add: demo_globals_def)


text \<open>
  C10, as amended. For a test case with at least one action the entry function calls the
  construction once, first, in the state it has set up; then \<open>InitializeParser\<close> and the
  replay on the handle the construction returned, which make only feeding, resuming,
  resetting and configuring calls on that handle; and last it applies \<open>XML_ParserFree\<close>
  to that handle, once, whatever the statuses of the feeds were. It never tests the
  handle: when the construction fails the handle is null, and it is the null pointer
  that is configured, fed and freed. It returns whenever every entry point of the library
  comes back and the library makes progress on resuming. The one other call of
  \<open>XML_ParserFree\<close> in the harness is in the external-entity-reference callback, which
  frees only the handle of the nested construction it has just made, and which never
  calls the construction of a main parser.
\<close>

theorem one_parser_created_and_freed:
  assumes "tc_actions testcase \<noteq> []"
  shows "TestOneProtoInput L testcase r =
     (let g3 = SetEncoding (tc_encoding testcase)
                 ((fst r)\<lparr>external_entity := None, allocation_count := 0,
                    fail_allocations := tc_fail_allocations testcase\<rparr>)
      in
        (case XML_ParserCreate_MM L (g_encoding g3) ''|'' g3 of
           None \<Rightarrow> None
         | Some (parser, n, w) \<Rightarrow>
             (case InitializeParser L parser
                     (g3\<lparr>allocation_count := n, world := w\<rparr>,
                      snd r @ [Ev_ParserCreate_MM (g_encoding g3) ''|'' parser]) of
                None \<Rightarrow> None
              | Some r2 \<Rightarrow>
                  (case replay L parser (tc_actions testcase) r2 of
                     None \<Rightarrow> None
                   | Some r3 \<Rightarrow>
                       (case XML_ParserFree L parser (fst r3) of
                          None \<Rightarrow> None
                        | Some (u, n', w') \<Rightarrow>
                            Some ((fst r3)\<lparr>allocation_count := n', world := w'\<rparr>,
                                  snd r3 @ [Ev_ParserFree parser])))))) \<and>
     (TestOneProtoInput L testcase r = Some r' \<longrightarrow>
        (\<exists>parser mid.
           snd r' = snd r @
             Ev_ParserCreate_MM (g_encoding (SetEncoding (tc_encoding testcase) (fst r))) ''|'' parser #
             mid @ [Ev_ParserFree parser] \<and>
           (\<forall>e \<in> set mid. replay_event parser e))) \<and>
     (always_returns L \<longrightarrow> resume_progress L \<longrightarrow> TestOneProtoInput L testcase r \<noteq> None) \<and>
     (ExternalEntityRefHandler L p context base systemId publicId r0 = Some (Inr (rc, r0')) \<longrightarrow>
        (\<exists>es. snd r0' = snd r0 @ es \<and>
           (\<forall>q. Ev_ParserFree q \<in> set es \<longrightarrow>
              Ev_ExternalEntityParserCreate p context (g_encoding (fst r0)) q \<in> set es) \<and>
           (\<forall>enc sep q. Ev_ParserCreate_MM enc sep q \<notin> set es)))"
  using TestOneProtoInput_eq [OF assms, of L r] TestOneProtoInput_calls [OF assms, of L r r']
    TestOneProtoInput_returns [OF assms, of L r]
    ExternalEntityRefHandler_frees [of L p "context" base systemId publicId r0 rc r0']
  by (intro conjI impI) assumption+

theorem one_parser_created_and_freed_witness:
  "TestOneProtoInput track_lib
     \<lparr>tc_encoding = NONE, tc_fail_allocations = [7],
      tc_actions = [Chunk ''<!---->'', ExternalEntity ''x'', Chunk ''<?'', LastChunk ''<a>'']\<rparr>
     (track_globals, []) =
   Some (track_globals\<lparr>external_entity := Some ''x'', external_entity_size := 1,
       allocation_count := 1, fail_allocations := [7],
       world := \<lparr>heap = 1, comment_handler = True, parsing_suspended = False,
                 comments_left = 0, comments_parsed = 1, stop_requests = 1,
                 parsers_freed = 1, models_freed = 0\<rparr>\<rparr>,
     [] @ Ev_ParserCreate_MM None ''|'' (Some 1) #
     (map (Ev_Set (Some 1)) (parser_settings (Some 1)) @
      [Ev_Parse (Some 1) (Some ''<!---->'') 7 0 XML_STATUS_SUSPENDED,
       Ev_ResumeParser (Some 1) XML_STATUS_OK,
       Ev_Parse (Some 1) (Some ''<?'') 2 0 XML_STATUS_ERROR,
       Ev_ParserReset (Some 1) None,
       Ev_Parse (Some 1) (Some ''<a>'') 3 1 XML_STATUS_OK,
       Ev_ParserReset (Some 1) None] @
      map (Ev_Set (Some 1)) (parser_settings (Some 1))) @
     [Ev_ParserFree (Some 1)]) \<and>
   always_returns demo_lib \<and> resume_progress demo_lib \<and>
   TestOneProtoInput demo_lib
     \<lparr>tc_encoding = NONE, tc_fail_allocations = [],
      tc_actions = [Chunk ''<a>'', LastChunk ''<!---->'']\<rparr>
     (demo_globals 5 [9], []) \<noteq> None"
proof -
  let ?tc1 = "\<lparr>tc_encoding = NONE, tc_fail_allocations = [7],
      tc_actions = [Chunk ''<!---->'', ExternalEntity ''x'', Chunk ''<?'', LastChunk ''<a>'']\<rparr>"
  let ?tc2 = "\<lparr>tc_encoding = NONE, tc_fail_allocations = [],
      tc_actions = [Chunk ''<a>'', LastChunk ''<!---->'']\<rparr>"
  have ne1: "tc_actions ?tc1 \<noteq> []" and ne2: "tc_actions ?tc2 \<noteq> []" by simp_all
  from one_parser_created_and_freed [OF ne1, of track_lib "(track_globals, [])"]
  have A: "TestOneProtoInput track_lib ?tc1 (track_globals, []) =
   Some (track_globals\<lparr>external_entity := Some ''x'', external_entity_size := 1,
       allocation_count := 1, fail_allocations := [7],
       world := \<lparr>heap = 1, comment_handler = True, parsing_suspended = False,
                 comments_left = 0, comments_parsed = 1, stop_requests = 1,
                 parsers_freed = 1, models_freed = 0\<rparr>\<rparr>,
     [] @ Ev_ParserCreate_MM None ''|'' (Some 1) #
     (map (Ev_Set (Some 1)) (parser_settings (Some 1)) @
      [Ev_Parse (Some 1) (Some ''<!---->'') 7 0 XML_STATUS_SUSPENDED,
       Ev_ResumeParser (Some 1) XML_STATUS_OK,
       Ev_Parse (Some 1) (Some ''<?'') 2 0 XML_STATUS_ERROR,
       Ev_ParserReset (Some 1) None,
       Ev_Parse (Some 1) (Some ''<a>'') 3 1 XML_STATUS_OK,
       Ev_ParserReset (Some 1) None] @
      map (Ev_Set (Some 1)) (parser_settings (Some 1))) @
     [Ev_ParserFree (Some 1)])"
    by (simp add: InitializeParser_eq call_ParserReset_eq SetEncoding_def track_eval)
  from one_parser_created_and_freed [OF ne2, of demo_lib "(demo_globals 5 [9], [])"]
    demo_returns demo_progress
  have B: "TestOneProtoInput demo_lib ?tc2 (demo_globals 5 [9], []) \<noteq> None" by blast
  from A B demo_returns demo_progress show ?thesis by blast
qed

text \<open>
  C10 as stated fails: a non-empty test case does not always construct a parser. With
  the index 0 in the fail-list the first allocation of the construction is forced to
  fail, the library that allocates through the hooks returns the null pointer, and no
  parser exists (nothing was allocated); the replay and the free are made on the null
  pointer.
\<close>

theorem failed_construction_counterexample:
  "TestOneProtoInput track_lib
     \<lparr>tc_encoding = NONE, tc_fail_allocations = [0], tc_actions = [Chunk ''<a>'']\<rparr>
     (track_globals, []) =
   Some (track_globals\<lparr>fail_allocations := [0]\<rparr>,
     [Ev_ParserCreate_MM None ''|'' None] @
     map (Ev_Set None) (parser_settings None) @
     [Ev_Parse None (Some ''<a>'') 3 0 XML_STATUS_ERROR,
      Ev_ParserReset None None,
      Ev_ParserFree None])"
  by (simp add: track_run)

subsection \<open>The content model\<close>

text \<open>
  C6, as amended. Whenever \<open>TouchChildNodes\<close> accepts a content model, the model has the
  shape of the specification, where every NAME node, also as a child of a MIXED node,
  has no children and a name that can be read to its terminator unless it is null; and
  the reads it made are reads of names. The element-declaration callback ends the
  process when the element name cannot be read or \<open>TouchChildNodes\<close> rejects the model;
  otherwise it applies \<open>XML_FreeContentModel\<close> to the model once, as its last call after
  the reads, and returns in the state that call left (it does not return when the call
  does not). So whenever it returns, the model has the shape.
\<close>

theorem content_model_checked_and_released:
  "(TouchChildNodes model = Inr es \<longrightarrow>
      shape readable_if_present model \<and> (\<forall>e \<in> set es. \<exists>p. e = Ev_TouchString p (- 1))) \<and>
   ElementDeclHandler L userData nm model r =
     (case TouchString nm (- 1) of
        Inl a \<Rightarrow> Some (Inl MemoryFault)
      | Inr u \<Rightarrow>
          (case TouchChildNodes model of
             Inl a \<Rightarrow> Some (Inl a)
           | Inr es \<Rightarrow>
               (case XML_FreeContentModel L userData model (fst r) of
                  None \<Rightarrow> None
                | Some (v, n, w) \<Rightarrow>
                    Some (Inr ((fst r)\<lparr>allocation_count := n, world := w\<rparr>,
                      snd r @ Ev_TouchString nm (- 1) # es @
                        [Ev_FreeContentModel userData model]))))) \<and>
   (ElementDeclHandler L userData nm model r = Some (Inr r') \<longrightarrow>
      shape readable_if_present model)"
proof (intro conjI impI)
  assume "TouchChildNodes model = Inr es"
  from TouchChildNodes_ok(1) [OF this]
  show "shape readable_if_present model" and "\<forall>e \<in> set es. \<exists>p. e = Ev_TouchString p (- 1)"
    by blast+
next
  assume "ElementDeclHandler L userData nm model r = Some (Inr r')"
  then obtain es where "TouchChildNodes model = Inr es"
    by (auto simp: ElementDeclHandler_eq split: sum.splits option.splits)
  from TouchChildNodes_ok(1) [OF this] show "shape readable_if_present model" by blast
qed (rule ElementDeclHandler_eq)

theorem content_model_checked_and_released_witness:
  "ElementDeclHandler track_lib (Some 1) (Some [CHR ''e'', CHR 0x00]) demo_model
     (track_registered, []) =
     Some (Inr (track_registered\<lparr>world := (world track_registered)\<lparr>models_freed := 1\<rparr>\<rparr>,
       [Ev_TouchString (Some [CHR ''e'', CHR 0x00]) (- 1),
        Ev_TouchString (Some [CHR ''a'', CHR 0x00]) (- 1),
        Ev_TouchString (Some [CHR ''b'', CHR 0x00]) (- 1),
        Ev_FreeContentModel (Some 1) demo_model])) \<and>
   shape readable_if_present demo_model \<and>
   ElementDeclHandler track_lib (Some 1) None
     (XML_Content XML_CTYPE_EMPTY XML_CQUANT_OPT None 0 None) (track_registered, []) =
     Some (Inl AssertionFailed)"
proof -
  let ?r = "(track_registered, []) :: lib_world run"
  let ?out = "(track_registered\<lparr>world := (world track_registered)\<lparr>models_freed := 1\<rparr>\<rparr>,
       [Ev_TouchString (Some [CHR ''e'', CHR 0x00]) (- 1),
        Ev_TouchString (Some [CHR ''a'', CHR 0x00]) (- 1),
        Ev_TouchString (Some [CHR ''b'', CHR 0x00]) (- 1),
        Ev_FreeContentModel (Some 1) demo_model]) :: lib_world run"
  have v: "TouchChildNodes demo_model =
      Inr [Ev_TouchString (Some [CHR ''a'', CHR 0x00]) (- 1),
           Ev_TouchString (Some [CHR ''b'', CHR 0x00]) (- 1)]"
    by (simp add: demo_model_def TouchString_def eval_nat_numeral)
  note T = content_model_checked_and_released
         [of demo_model _ track_lib "Some 1" "Some [CHR ''e'', CHR 0x00]" ?r ?out]
  from T v have e: "ElementDeclHandler track_lib (Some 1) (Some [CHR ''e'', CHR 0x00]) demo_model ?r =
      Some (Inr ?out)"
    by (simp add: TouchString_def track_lib_simps track_registered_def track_globals_def)
  with T have s: "shape readable_if_present demo_model" by blast
  have b: "ElementDeclHandler track_lib (Some 1) None
     (XML_Content XML_CTYPE_EMPTY XML_CQUANT_OPT None 0 None) ?r = Some (Inl AssertionFailed)"
    by (simp add: model_eval)
  from e s b show ?thesis by blast
qed

text \<open>
  C6 as stated fails: a NAME node whose name is the null pointer has no readable name,
  and \<open>TouchChildNodes\<close> accepts it (\<open>TouchString\<close> returns at once on a null pointer), so
  the callback goes on to release the model.
\<close>

theorem nameless_name_node_accepted_counterexample:
  "TouchChildNodes (XML_Content XML_CTYPE_NAME XML_CQUANT_NONE None 0 None) =
     Inr [Ev_TouchString None (- 1)] \<and>
   ElementDeclHandler demo_lib (Some 1) None
     (XML_Content XML_CTYPE_NAME XML_CQUANT_NONE None 0 None) (demo_globals 0 [], []) =
     Some (Inr (demo_globals 0 [],
       [Ev_TouchString None (- 1), Ev_TouchString None (- 1),
        Ev_FreeContentModel (Some 1) (XML_Content XML_CTYPE_NAME XML_CQUANT_NONE None 0 None)])) \<and>
   \<not> shape has_readable_name (XML_Content XML_CTYPE_NAME XML_CQUANT_NONE None 0 None)"
  by (simp add: model_eval lib_call_def demo_lib_simps demo_void_def demo_globals_def
      has_readable_name_def)


end
